theory Spec2Isabelle
  imports Main
begin

unbundle bit_operations_syntax

section \<open>Python strings and the posixpath functions the program calls\<close>

text \<open>
  Strings are lists of 8-bit characters (the Latin-1 range of Python's code points).
  The functions below embed the behaviour of the \<^verbatim>\<open>str\<close> methods and of the
  pure-Python \<^verbatim>\<open>posixpath\<close> module that \<^verbatim>\<open>windows_main.py\<close> uses for every
  remote path.
\<close>

definition py_isspace :: "char \<Rightarrow> bool" where
  \<comment> \<open>\<^verbatim>\<open>str.isspace\<close> on the code points below 256\<close>
  "py_isspace c =
     (let n = (of_char c :: nat)
      in (9 \<le> n \<and> n \<le> 13) \<or> (28 \<le> n \<and> n \<le> 32) \<or> n = 133 \<or> n = 160)"

definition strip :: "string \<Rightarrow> string" where
  \<comment> \<open>\<^verbatim>\<open>s.strip()\<close>\<close>
  "strip s = rev (dropWhile py_isspace (rev (dropWhile py_isspace s)))"

definition rstrip :: "string \<Rightarrow> string \<Rightarrow> string" where
  \<comment> \<open>\<^verbatim>\<open>s.rstrip(chars)\<close>\<close>
  "rstrip s chars = rev (dropWhile (\<lambda>c. c \<in> set chars) (rev s))"

definition startswith :: "string \<Rightarrow> string \<Rightarrow> bool" where
  "startswith s p = (take (length p) s = p)"

definition endswith :: "string \<Rightarrow> string \<Rightarrow> bool" where
  "endswith s p = (length p \<le> length s \<and> drop (length s - length p) s = p)"

definition rfind :: "string \<Rightarrow> char \<Rightarrow> int" where
  \<comment> \<open>\<^verbatim>\<open>s.rfind(c)\<close> for a one-character needle: the last index of c, or -1\<close>
  "rfind s c = int (length (dropWhile (\<lambda>x. x \<noteq> c) (rev s))) - 1"

fun str_split :: "string \<Rightarrow> char \<Rightarrow> string list" where
  \<comment> \<open>\<^verbatim>\<open>s.split(c)\<close> for a one-character separator\<close>
  "str_split [] c = [[]]"
| "str_split (x # xs) c =
     (if x = c then [] # str_split xs c
      else (x # hd (str_split xs c)) # tl (str_split xs c))"

fun str_join :: "string \<Rightarrow> string list \<Rightarrow> string" where
  \<comment> \<open>\<^verbatim>\<open>sep.join(parts)\<close>\<close>
  "str_join sep [] = []"
| "str_join sep [x] = x"
| "str_join sep (x # y # zs) = x @ sep @ str_join sep (y # zs)"

definition posixpath_dirname :: "string \<Rightarrow> string" where
  "posixpath_dirname p =
     (let i = nat (rfind p CHR ''/'' + 1);
          head = take i p
      in if head \<noteq> [] \<and> head \<noteq> replicate (length head) CHR ''/''
         then rstrip head ''/'' else head)"

definition posixpath_join :: "string \<Rightarrow> string \<Rightarrow> string" where
  \<comment> \<open>\<^verbatim>\<open>posixpath.join(a, b)\<close> with one further component\<close>
  "posixpath_join a b =
     (if startswith b ''/'' then b
      else if a = [] \<or> endswith a ''/'' then a @ b
      else a @ ''/'' @ b)"

definition normpath_step :: "nat \<Rightarrow> string list \<Rightarrow> string \<Rightarrow> string list" where
  \<comment> \<open>one round of the loop over \<^verbatim>\<open>comps\<close> in \<^verbatim>\<open>posixpath.normpath\<close>\<close>
  "normpath_step initial_slashes new_comps c =
     (if c = [] \<or> c = ''.'' then new_comps
      else if c \<noteq> ''..'' \<or> (initial_slashes = 0 \<and> new_comps = [])
              \<or> (new_comps \<noteq> [] \<and> last new_comps = ''..'')
           then new_comps @ [c]
      else if new_comps \<noteq> [] then butlast new_comps
      else new_comps)"

definition posixpath_normpath :: "string \<Rightarrow> string" where
  "posixpath_normpath path =
     (if path = [] then ''.''
      else
        let initial_slashes =
              (if startswith path ''/''
               then (if startswith path ''//'' \<and> \<not> startswith path ''///''
                     then 2 else 1)
               else (0::nat));
            comps = foldl (normpath_step initial_slashes) [] (str_split path CHR ''/'');
            path' = replicate initial_slashes CHR ''/'' @ str_join ''/'' comps
        in if path' = [] then ''.'' else path')"

section \<open>Exceptions, JSON values and dictionaries\<close>

text \<open>
  An exception is a value. Every error below is a subclass of Python's \<^verbatim>\<open>Exception\<close>,
  so both \<^verbatim>\<open>except:\<close> and \<^verbatim>\<open>except Exception:\<close> catch it; \<open>Failure\<close> is an error
  raised by a collaborator (the SSH library, the operating system, the JSON decoder).
\<close>

datatype exn = AttributeError | TypeError | KeyError | ValueError | Failure string

datatype json =
    JNull
  | JBool bool
  | JInt int
  | JStr string
  | JList "json list"
  | JObj "(string \<times> json) list"

type_synonym pydict = "(string \<times> json) list"

fun dict_set :: "'k \<Rightarrow> 'v \<Rightarrow> ('k \<times> 'v) list \<Rightarrow> ('k \<times> 'v) list" where
  \<comment> \<open>\<^verbatim>\<open>d[k] = v\<close>: an existing key keeps its place, a new key goes last\<close>
  "dict_set k v [] = [(k, v)]"
| "dict_set k v ((k', v') # d) =
     (if k' = k then (k, v) # d else (k', v') # dict_set k v d)"

definition dict_get :: "('k \<times> 'v) list \<Rightarrow> 'k \<Rightarrow> 'v \<Rightarrow> 'v" where
  \<comment> \<open>\<^verbatim>\<open>d.get(k, default)\<close>\<close>
  "dict_get d k dflt = (case map_of d k of None \<Rightarrow> dflt | Some v \<Rightarrow> v)"

definition dict_item :: "('k \<times> 'v) list \<Rightarrow> 'k \<Rightarrow> exn + 'v" where
  \<comment> \<open>\<^verbatim>\<open>d[k]\<close>\<close>
  "dict_item d k = (case map_of d k of None \<Rightarrow> Inl KeyError | Some v \<Rightarrow> Inr v)"

section \<open>Collaborators: the SSH library, the operating system, the display\<close>

text \<open>
  The program's effects all go through library calls. A call that returns nothing the
  program looks at is a constructor of \<open>call\<close>; the environment decides whether it
  raises, and what the outside world (of type \<open>'w\<close>: the remote server, the local disk,
  the network) is afterwards. A failed call leaves the world as it was.
\<close>

datatype call =
    TransportNew json int
  | TransportConnect json json
  | SftpFromTransport
  | OpenSession
  | GetPty
  | InvokeShell
  | ChannelSend string
  | ChannelClose
  | SftpClose
  | TransportClose
  | SftpRemove string
  | SftpRmdir string
  | SftpPut string string
  | SftpGet string string
  | OsRemove string
  | OsRmdir string
  | OsStartfile string

text \<open>
  What an observer sees of a run: the collaborator calls in order, each entry into a
  listing method, what was printed, the error dialogs, and the removal of a tab.
\<close>

datatype event =
    Call call
  | ListRemoteFiles
  | ListLocalFiles
  | Print exn
  | MsgBox string exn
  | RemoveTab

record 'w env =
  exec :: "'w \<Rightarrow> call \<Rightarrow> exn + 'w"
  sftp_listdir_attr :: "'w \<Rightarrow> string \<Rightarrow> exn + (string \<times> int option) list"
  sftp_stat :: "'w \<Rightarrow> string \<Rightarrow> exn + int option"
  os_listdir :: "'w \<Rightarrow> string \<Rightarrow> exn + string list"
  os_isdir :: "'w \<Rightarrow> string \<Rightarrow> bool"
  os_path_join :: "string \<Rightarrow> string \<Rightarrow> string"
  mkstemp :: "'w \<Rightarrow> string \<Rightarrow> string \<Rightarrow> exn + string \<times> 'w"
  int_of_str :: "string \<Rightarrow> exn + int"

text \<open>
  \<open>sftp_listdir_attr\<close> returns, for each entry, \<^verbatim>\<open>filename\<close> and \<^verbatim>\<open>st_mode\<close>, and
  \<open>sftp_stat\<close> returns \<^verbatim>\<open>st_mode\<close>; the library leaves \<^verbatim>\<open>st_mode\<close> at \<^verbatim>\<open>None\<close> when
  the server sends no permission bits. \<open>os_path_join\<close> is the host's \<^verbatim>\<open>os.path.join\<close>
  and \<open>int_of_str\<close> is \<^verbatim>\<open>int\<close> on a string.
\<close>

section \<open>The state of a connection tab\<close>

datatype item = Item (item_text: string) (item_data: "string option")

record terminal =
  channel :: bool
  running :: bool

text \<open>
  A \<^verbatim>\<open>ConnectionTab\<close> with the widgets the methods read and write. \<open>sftp\<close> and
  \<open>transport\<close> say whether the attribute is set (not \<^verbatim>\<open>None\<close>), \<open>ssh_terminal\<close> holds
  the \<^verbatim>\<open>SSHTerminal\<close> (\<open>channel\<close>: its channel is set). \<open>world\<close> and \<open>trace\<close> are the
  outside world and the observations so far. The reader thread of the terminal is not
  part of the model.
\<close>

record 'w tab =
  cfg :: pydict
  remote_path :: string
  local_path :: string
  sftp :: bool
  transport :: bool
  ssh_terminal :: "terminal option"
  remote_list :: "item list"
  remote_label :: string
  local_list :: "item list"
  local_label :: string
  term_in :: string
  world :: "'w"
  trace :: "event list"

text \<open>
  The outcome of a method: the state it leaves and the exception that left it, if any
  (Python keeps every assignment made before a raise).
\<close>

type_synonym 'w outcome = "'w tab \<times> exn option"

definition ok :: "'w tab \<Rightarrow> 'w outcome" where
  "ok s = (s, None)"

definition raise :: "exn \<Rightarrow> 'w tab \<Rightarrow> 'w outcome" where
  "raise e s = (s, Some e)"

definition then_do :: "'w outcome \<Rightarrow> ('w tab \<Rightarrow> 'w outcome) \<Rightarrow> 'w outcome" where
  \<comment> \<open>statement sequencing: a raise skips the rest\<close>
  "then_do r k = (case r of (s, None) \<Rightarrow> k s | (s, Some e) \<Rightarrow> (s, Some e))"

definition try_except :: "'w outcome \<Rightarrow> (exn \<Rightarrow> 'w tab \<Rightarrow> 'w outcome) \<Rightarrow> 'w outcome" where
  \<comment> \<open>\<^verbatim>\<open>try: r except Exception as e: h\<close>\<close>
  "try_except r h = (case r of (s, None) \<Rightarrow> (s, None) | (s, Some e) \<Rightarrow> h e s)"

definition log :: "event \<Rightarrow> 'w tab \<Rightarrow> 'w tab" where
  "log ev s = s\<lparr>trace := trace s @ [ev]\<rparr>"

definition invoke :: "'w env \<Rightarrow> call \<Rightarrow> 'w tab \<Rightarrow> 'w outcome" where
  "invoke env c s =
     (case exec env (world s) c of
        Inl e \<Rightarrow> raise e (log (Call c) s)
      | Inr w \<Rightarrow> ok ((log (Call c) s)\<lparr>world := w\<rparr>))"

definition sftp_call :: "'w env \<Rightarrow> call \<Rightarrow> 'w tab \<Rightarrow> 'w outcome" where
  \<comment> \<open>a method call on \<^verbatim>\<open>self.sftp\<close>, which may be \<^verbatim>\<open>None\<close>\<close>
  "sftp_call env c s = (if sftp s then invoke env c s else raise AttributeError s)"

definition count_event :: "event \<Rightarrow> 'w tab \<Rightarrow> nat" where
  "count_event ev s = length (filter (\<lambda>x. x = ev) (trace s))"

section \<open>Listing\<close>

definition S_ISDIR :: "int option \<Rightarrow> exn + bool" where
  \<comment> \<open>\<^verbatim>\<open>stat.S_ISDIR(mode)\<close>: \<^verbatim>\<open>(mode & 0o170000) == 0o040000\<close>, a \<^verbatim>\<open>TypeError\<close> on \<^verbatim>\<open>None\<close>\<close>
  "S_ISDIR st_mode =
     (case st_mode of
        None \<Rightarrow> Inl TypeError
      | Some m \<Rightarrow> Inr (m AND 61440 = 16384))"

fun add_remote_entries :: "(string \<times> int option) list \<Rightarrow> 'w tab \<Rightarrow> 'w outcome" where
  \<comment> \<open>the \<^verbatim>\<open>for f in ...\<close> loop of \<^verbatim>\<open>list_remote_files\<close>: one item per entry, in order\<close>
  "add_remote_entries [] s = ok s"
| "add_remote_entries ((filename, st_mode) # fs) s =
     (case S_ISDIR st_mode of
        Inl e \<Rightarrow> raise e s
      | Inr d \<Rightarrow>
          add_remote_entries fs
            (s\<lparr>remote_list :=
                 remote_list s @ [Item (filename @ (if d then ''/'' else [])) (Some filename)]\<rparr>))"

definition list_remote_files :: "'w env \<Rightarrow> 'w tab \<Rightarrow> 'w outcome" where
  "list_remote_files env s =
     (let s0 = (log ListRemoteFiles s)\<lparr>remote_list := []\<rparr>
      in try_except
           (let s1 = s0\<lparr>remote_list := remote_list s0 @ [Item ''..'' None]\<rparr>
            in if sftp s1
               then (case sftp_listdir_attr env (world s1) (remote_path s1) of
                       Inl e \<Rightarrow> raise e s1
                     | Inr fs \<Rightarrow>
                         then_do (add_remote_entries fs s1)
                           (\<lambda>s2. ok (s2\<lparr>remote_label := ''Remote: '' @ remote_path s2\<rparr>)))
               else raise AttributeError s1)
           (\<lambda>e s'. ok (log (Print e) s')))"

definition local_items :: "'w env \<Rightarrow> 'w \<Rightarrow> string \<Rightarrow> string list \<Rightarrow> item list" where
  "local_items env w dir ns =
     map (\<lambda>n. Item (n @ (if os_isdir env w (os_path_join env dir n) then ''/'' else [])) (Some n)) ns"

definition list_local_files :: "'w env \<Rightarrow> 'w tab \<Rightarrow> 'w outcome" where
  "list_local_files env s =
     (let s0 = (log ListLocalFiles s)\<lparr>local_list := []\<rparr>
      in try_except
           (let s1 = s0\<lparr>local_list := local_list s0 @ [Item ''..'' None]\<rparr>
            in case os_listdir env (world s1) (local_path s1) of
                 Inl e \<Rightarrow> raise e s1
               | Inr ns \<Rightarrow>
                   ok (s1\<lparr>local_list := local_list s1 @ local_items env (world s1) (local_path s1) ns,
                            local_label := ''Local: '' @ local_path s1\<rparr>))
           (\<lambda>e s'. ok (log (Print e) s')))"

section \<open>Navigation in the remote browser\<close>

definition item_name :: "item \<Rightarrow> string" where
  \<comment> \<open>\<^verbatim>\<open>it.data(Qt.UserRole) or it.text()\<close>\<close>
  "item_name it =
     (case item_data it of
        None \<Rightarrow> item_text it
      | Some d \<Rightarrow> if d \<noteq> [] then d else item_text it)"

definition is_dir :: "'w env \<Rightarrow> 'w tab \<Rightarrow> string \<Rightarrow> bool" where
  "is_dir env s path =
     (if sftp s
      then (case sftp_stat env (world s) path of
              Inl e \<Rightarrow> False
            | Inr st_mode \<Rightarrow> (case S_ISDIR st_mode of Inl e \<Rightarrow> False | Inr d \<Rightarrow> d))
      else False)"

definition parent_path :: "string \<Rightarrow> string" where
  \<comment> \<open>\<^verbatim>\<open>posixpath.dirname(self.remote_path.rstrip("/")) or "/"\<close>\<close>
  "parent_path r =
     (let d = posixpath_dirname (rstrip r ''/'') in if d \<noteq> [] then d else ''/'')"

definition open_remote_file :: "'w env \<Rightarrow> string \<Rightarrow> string \<Rightarrow> 'w tab \<Rightarrow> 'w outcome" where
  \<comment> \<open>the \<^verbatim>\<open>else\<close> branch of \<^verbatim>\<open>remote_double\<close>: download to a temporary file and open it\<close>
  "open_remote_file env name path s =
     try_except
       (case mkstemp env (world s) ''sftp_'' (''_'' @ name) of
          Inl e \<Rightarrow> raise e s
        | Inr (tmpfile, w) \<Rightarrow>
            then_do (sftp_call env (SftpGet path tmpfile) (s\<lparr>world := w\<rparr>))
              (invoke env (OsStartfile tmpfile)))
       (\<lambda>e s'. ok (log (MsgBox ''Remote opening error'' e) s'))"

definition remote_double :: "'w env \<Rightarrow> item \<Rightarrow> 'w tab \<Rightarrow> 'w outcome" where
  "remote_double env it s =
     (let name = item_name it
      in if name = ''..''
         then list_remote_files env (s\<lparr>remote_path := parent_path (remote_path s)\<rparr>)
         else
           let path = posixpath_join (remote_path s) name
           in if is_dir env s path
              then list_remote_files env (s\<lparr>remote_path := path\<rparr>)
              else open_remote_file env name path s)"

section \<open>Delete and upload\<close>

definition delete_remote :: "'w env \<Rightarrow> item \<Rightarrow> 'w tab \<Rightarrow> 'w outcome" where
  \<comment> \<open>an item without user data (the parent marker) makes \<^verbatim>\<open>posixpath.join\<close> raise\<close>
  "delete_remote env it s =
     (case item_data it of
        None \<Rightarrow> raise TypeError s
      | Some n \<Rightarrow>
          let p = posixpath_join (remote_path s) n
          in then_do
               (try_except (sftp_call env (SftpRemove p) s)
                  (\<lambda>e s'. sftp_call env (SftpRmdir p) s'))
               (list_remote_files env))"

definition delete_local :: "'w env \<Rightarrow> item \<Rightarrow> 'w tab \<Rightarrow> 'w outcome" where
  "delete_local env it s =
     (case item_data it of
        None \<Rightarrow> raise TypeError s
      | Some n \<Rightarrow>
          let p = os_path_join env (local_path s) n
          in then_do
               (try_except (invoke env (OsRemove p) s)
                  (\<lambda>e s'. invoke env (OsRmdir p) s'))
               (list_local_files env))"

definition upload_file :: "'w env \<Rightarrow> item \<Rightarrow> 'w tab \<Rightarrow> 'w outcome" where
  "upload_file env it s =
     (case item_data it of
        None \<Rightarrow> raise TypeError s
      | Some n \<Rightarrow>
          let src = os_path_join env (local_path s) n;
              dst = posixpath_join (remote_path s) n
          in try_except
               (then_do (sftp_call env (SftpPut src dst) s) (list_remote_files env))
               (\<lambda>e s'. ok (log (MsgBox ''Upload Error'' e) s')))"

section \<open>The SSH terminal\<close>

definition terminal_open :: "'w env \<Rightarrow> 'w tab \<Rightarrow> 'w outcome" where
  \<comment> \<open>\<^verbatim>\<open>SSHTerminal.open\<close> on the terminal of the tab; the channel is assigned as soon as
      \<^verbatim>\<open>open_session\<close> returns\<close>
  "terminal_open env s =
     try_except
       (then_do (invoke env OpenSession s)
          (\<lambda>s1. then_do
                   (invoke env GetPty
                      (s1\<lparr>ssh_terminal := map_option (\<lambda>t. t\<lparr>channel := True\<rparr>) (ssh_terminal s1)\<rparr>))
                   (\<lambda>s2. then_do (invoke env InvokeShell s2)
                            (\<lambda>s3. ok (s3\<lparr>ssh_terminal :=
                                          map_option (\<lambda>t. t\<lparr>running := True\<rparr>) (ssh_terminal s3)\<rparr>)))))
       (\<lambda>e s'. ok s')"

definition terminal_send :: "'w env \<Rightarrow> string \<Rightarrow> 'w tab \<Rightarrow> 'w outcome" where
  \<comment> \<open>\<^verbatim>\<open>self.ssh_terminal.send(txt)\<close>\<close>
  "terminal_send env txt s =
     (case ssh_terminal s of
        None \<Rightarrow> raise AttributeError s
      | Some t \<Rightarrow> if channel t then invoke env (ChannelSend (txt @ [CHR 10])) s else ok s)"

definition terminal_close :: "'w env \<Rightarrow> 'w tab \<Rightarrow> 'w outcome" where
  \<comment> \<open>\<^verbatim>\<open>self.ssh_terminal.close()\<close>\<close>
  "terminal_close env s =
     (case ssh_terminal s of
        None \<Rightarrow> raise AttributeError s
      | Some t \<Rightarrow>
          let s1 = s\<lparr>ssh_terminal := Some (t\<lparr>running := False\<rparr>)\<rparr>
          in try_except
               (if channel t then invoke env ChannelClose s1 else raise AttributeError s1)
               (\<lambda>e s'. ok s'))"

definition send_term :: "'w env \<Rightarrow> 'w tab \<Rightarrow> 'w outcome" where
  "send_term env s =
     (let t = strip (term_in s)
      in if t = [] then ok s
         else
           then_do
             (if startswith t ''cd ''
              then
                let arg = strip (drop 3 t)
                in list_remote_files env
                     (s\<lparr>remote_path := posixpath_normpath (posixpath_join (remote_path s) arg)\<rparr>)
              else ok s)
             (\<lambda>s1. then_do (terminal_send env t s1) (\<lambda>s2. ok (s2\<lparr>term_in := []\<rparr>))))"

section \<open>Connecting and closing\<close>

definition py_int :: "'w env \<Rightarrow> json \<Rightarrow> exn + int" where
  \<comment> \<open>\<^verbatim>\<open>int(v)\<close> on a decoded JSON value\<close>
  "py_int env v =
     (case v of
        JInt n \<Rightarrow> Inr n
      | JBool b \<Rightarrow> Inr (if b then 1 else 0)
      | JStr x \<Rightarrow> int_of_str env x
      | _ \<Rightarrow> Inl TypeError)"

definition close_previous :: "'w env \<Rightarrow> 'w tab \<Rightarrow> 'w outcome" where
  \<comment> \<open>the first \<^verbatim>\<open>try\<close> of \<^verbatim>\<open>connect_all\<close>\<close>
  "close_previous env s =
     try_except
       (then_do (if sftp s then invoke env SftpClose s else ok s)
          (\<lambda>s1. if transport s1 then invoke env TransportClose s1 else ok s1))
       (\<lambda>e s'. ok s')"

definition connect_all :: "'w env \<Rightarrow> 'w tab \<Rightarrow> 'w outcome" where
  "connect_all env s =
     then_do (close_previous env s)
       (\<lambda>s0. try_except
          (case dict_item (cfg s0) ''server'' of
             Inl e \<Rightarrow> raise e s0
           | Inr server \<Rightarrow>
              (case py_int env (dict_get (cfg s0) ''port'' (JInt 22)) of
                 Inl e \<Rightarrow> raise e s0
               | Inr port \<Rightarrow>
                  then_do (invoke env (TransportNew server port) s0)
                    (\<lambda>s1. case dict_item (cfg s1) ''username'' of
                       Inl e \<Rightarrow> raise e s1
                     | Inr username \<Rightarrow>
                        then_do
                          (invoke env
                             (TransportConnect username (dict_get (cfg s1) ''password'' JNull)) s1)
                          (\<lambda>s2. then_do (invoke env SftpFromTransport (s2\<lparr>transport := True\<rparr>))
                             (\<lambda>s3. terminal_open env
                                (s3\<lparr>sftp := True,
                                    ssh_terminal := Some \<lparr>channel = False, running = False\<rparr>\<rparr>))))))
          (\<lambda>e s'. ok (log (MsgBox ''Connect Error'' e) s')))"

record config_dialog =
  dlg_server :: string
  dlg_port :: string
  dlg_username :: string
  dlg_password :: string
  dlg_keyfile :: string
  dlg_remote_path :: string
  dlg_local_path :: string

definition get_data :: "'w env \<Rightarrow> config_dialog \<Rightarrow> exn + pydict" where
  "get_data env d =
     (case (if strip (dlg_port d) \<noteq> [] then int_of_str env (strip (dlg_port d)) else Inr 22) of
        Inl e \<Rightarrow> Inl e
      | Inr port \<Rightarrow>
          Inr [(''server'', JStr (strip (dlg_server d))),
               (''port'', JInt port),
               (''username'', JStr (strip (dlg_username d))),
               (''password'', JStr (dlg_password d)),
               (''keyfile'', if strip (dlg_keyfile d) \<noteq> [] then JStr (strip (dlg_keyfile d)) else JNull),
               (''remote_path'',
                  JStr (if strip (dlg_remote_path d) \<noteq> [] then strip (dlg_remote_path d) else ''/'')),
               (''local_path'', JStr (strip (dlg_local_path d)))])"

definition close_tab :: "'w env \<Rightarrow> 'w tab \<Rightarrow> 'w outcome" where
  \<comment> \<open>\<^verbatim>\<open>AppWindow.close_tab\<close> at an index whose widget is the connection tab \<open>s\<close>\<close>
  "close_tab env s =
     then_do
       (try_except
          (then_do (if ssh_terminal s \<noteq> None then terminal_close env s else ok s)
             (\<lambda>s1. then_do (if sftp s1 then invoke env SftpClose s1 else ok s1)
                (\<lambda>s2. if transport s2 then invoke env TransportClose s2 else ok s2)))
          (\<lambda>e s'. ok s'))
       (\<lambda>s3. ok (log RemoveTab s3))"

section \<open>Sequences of user actions on the remote side\<close>

datatype action =
    RemoteDouble item
  | SendTerm string
  | RefreshRemote
  | DeleteRemote item
  | Upload item

fun perform :: "'w env \<Rightarrow> action \<Rightarrow> 'w tab \<Rightarrow> 'w outcome" where
  "perform env (RemoteDouble it) s = remote_double env it s"
| "perform env (SendTerm txt) s = send_term env (s\<lparr>term_in := txt\<rparr>)"
| "perform env RefreshRemote s = list_remote_files env s"
| "perform env (DeleteRemote it) s = delete_remote env it s"
| "perform env (Upload it) s = upload_file env it s"

text \<open>
  The event loop goes on after a handler raised: the next action starts from the state
  the failed one left.
\<close>

fun run :: "'w env \<Rightarrow> action list \<Rightarrow> 'w tab \<Rightarrow> 'w tab" where
  "run env [] s = s"
| "run env (a # as) s = run env as (fst (perform env a s))"

section \<open>Persisted files\<close>

text \<open>
  What the loaders find on disk: no file, a file that cannot be opened or decoded
  (\<^verbatim>\<open>open\<close> or \<^verbatim>\<open>json.load\<close> raises), or a file holding a JSON value.
\<close>

datatype stored = Missing | Corrupt exn | Content json

definition path_exists :: "stored \<Rightarrow> bool" where
  "path_exists f = (f \<noteq> Missing)"

definition json_load :: "stored \<Rightarrow> exn + json" where
  \<comment> \<open>\<^verbatim>\<open>json.load(open(FILE, "r", encoding="utf-8"))\<close>\<close>
  "json_load f =
     (case f of
        Missing \<Rightarrow> Inl (Failure ''FileNotFoundError'')
      | Corrupt e \<Rightarrow> Inl e
      | Content v \<Rightarrow> Inr v)"

definition catch :: "(exn + 'a) \<Rightarrow> (exn \<Rightarrow> exn + 'a) \<Rightarrow> exn + 'a" where
  \<comment> \<open>\<^verbatim>\<open>try ... except\<close> around an expression\<close>
  "catch r h = (case r of Inl e \<Rightarrow> h e | Inr v \<Rightarrow> Inr v)"

definition load_saved_configs :: "stored \<Rightarrow> exn + json list" where
  "load_saved_configs f =
     (case (if path_exists f
            then catch
                   (case json_load f of
                      Inl e \<Rightarrow> Inl e
                    | Inr v \<Rightarrow> Inr (Some (case v of JList xs \<Rightarrow> xs | _ \<Rightarrow> [v])))
                   (\<lambda>e. Inr None)
            else Inr None) of
        Inl e \<Rightarrow> Inl e
      | Inr (Some r) \<Rightarrow> Inr r
      | Inr None \<Rightarrow> Inr [])"

text \<open>
  A \<^verbatim>\<open>Theme\<close> is its attribute dictionary. \<^verbatim>\<open>dict.update\<close> takes a mapping, or an
  iterable of two-element iterables whose first element is hashable; keys that Python
  identifies (\<^verbatim>\<open>True\<close> and \<^verbatim>\<open>1\<close>) are identified here. Numbers that are not integers
  are left out of \<open>json\<close>.
\<close>

type_synonym theme = "(json \<times> json) list"

definition default_theme :: theme where
  "default_theme =
     [(JStr ''name'', JStr ''Default''),
      (JStr ''bg_color'', JStr ''#13111b''),
      (JStr ''text_color'', JStr ''#eae6ff''),
      (JStr ''font_family'', JStr ''Consolas''),
      (JStr ''font_size'', JInt 11)]"

definition dict_key :: "json \<Rightarrow> exn + json" where
  "dict_key k =
     (case k of
        JList xs \<Rightarrow> Inl TypeError
      | JObj kvs \<Rightarrow> Inl TypeError
      | JBool b \<Rightarrow> Inr (JInt (if b then 1 else 0))
      | _ \<Rightarrow> Inr k)"

definition update_pair :: "json \<Rightarrow> exn + json \<times> json" where
  \<comment> \<open>one element of the sequence given to \<^verbatim>\<open>dict.update\<close>\<close>
  "update_pair x =
     (case x of
        JList [k, v] \<Rightarrow> (case dict_key k of Inl e \<Rightarrow> Inl e | Inr k' \<Rightarrow> Inr (k', v))
      | JList xs \<Rightarrow> Inl ValueError
      | JStr [a, b] \<Rightarrow> Inr (JStr [a], JStr [b])
      | JStr cs \<Rightarrow> Inl ValueError
      | JObj [(k1, v1), (k2, v2)] \<Rightarrow> Inr (JStr k1, JStr k2)
      | JObj kvs \<Rightarrow> Inl ValueError
      | _ \<Rightarrow> Inl TypeError)"

fun update_pairs :: "theme \<Rightarrow> json list \<Rightarrow> exn + theme" where
  "update_pairs d [] = Inr d"
| "update_pairs d (x # xs) =
     (case update_pair x of
        Inl e \<Rightarrow> Inl e
      | Inr (k, v) \<Rightarrow> update_pairs (dict_set k v d) xs)"

definition dict_update :: "theme \<Rightarrow> json \<Rightarrow> exn + theme" where
  \<comment> \<open>\<^verbatim>\<open>d.update(data)\<close> for a decoded JSON value\<close>
  "dict_update d data =
     (case data of
        JObj kvs \<Rightarrow> Inr (foldl (\<lambda>m (k, v). dict_set (JStr k) v m) d kvs)
      | JList xs \<Rightarrow> update_pairs d xs
      | JStr cs \<Rightarrow> update_pairs d (map (\<lambda>c. JStr [c]) cs)
      | _ \<Rightarrow> Inl TypeError)"

definition theme_load :: "stored \<Rightarrow> exn + theme" where
  \<comment> \<open>\<^verbatim>\<open>ThemeManager.load\<close>\<close>
  "theme_load f =
     (case catch
             (if path_exists f
              then (case json_load f of
                      Inl e \<Rightarrow> Inl e
                    | Inr data \<Rightarrow>
                        (case dict_update default_theme data of
                           Inl e \<Rightarrow> Inl e
                         | Inr base \<Rightarrow> Inr (Some base)))
              else Inr None)
             (\<lambda>e. Inr None) of
        Inl e \<Rightarrow> Inl e
      | Inr (Some base) \<Rightarrow> Inr base
      | Inr None \<Rightarrow> Inr default_theme)"

section \<open>Notions used to state the properties\<close>

definition slash_rooted :: "string \<Rightarrow> bool" where
  "slash_rooted p = startswith p ''/''"

fun shown_entries :: "(string \<times> int option) list \<Rightarrow> item list" where
  \<comment> \<open>the items of the entries that stand before the first entry without mode bits\<close>
  "shown_entries [] = []"
| "shown_entries ((filename, None) # fs) = []"
| "shown_entries ((filename, Some m) # fs) =
     Item (filename @ (if m AND 61440 = 16384 then ''/'' else [])) (Some filename)
     # shown_entries fs"

definition listing_error :: "'w env \<Rightarrow> 'w tab \<Rightarrow> exn option" where
  \<comment> \<open>the error a remote listing meets in state \<open>s\<close>, if any: no client, the list call
      raises, or an entry has no mode bits\<close>
  "listing_error env s =
     (if sftp s
      then (case sftp_listdir_attr env (world s) (remote_path s) of
              Inl e \<Rightarrow> Some e
            | Inr fs \<Rightarrow> if list_all (\<lambda>(filename, st_mode). st_mode \<noteq> None) fs then None
                       else Some TypeError)
      else Some AttributeError)"

definition listed_items :: "'w env \<Rightarrow> 'w tab \<Rightarrow> item list" where
  \<comment> \<open>the entries a remote listing in state \<open>s\<close> gets to show\<close>
  "listed_items env s =
     (if sftp s
      then (case sftp_listdir_attr env (world s) (remote_path s) of
              Inl e \<Rightarrow> []
            | Inr fs \<Rightarrow> shown_entries fs)
      else [])"

text \<open>
  Lexical resolution, following the spec's words "resolving the argument against the
  current path lexically": the components of the current path and then those of the
  argument are walked in order; an empty component and \<^verbatim>\<open>.\<close> are skipped, \<^verbatim>\<open>..\<close> drops
  the last component kept (at the root there is none to drop), any other component is
  kept. An argument that begins with a slash starts again from the root. The root is
  \<^verbatim>\<open>/\<close>, or \<^verbatim>\<open>//\<close> for a path with exactly two leading slashes.
\<close>

definition lex_step :: "string list \<Rightarrow> string \<Rightarrow> string list" where
  "lex_step st c =
     (if c = [] \<or> c = ''.'' then st
      else if c = ''..'' then butlast st
      else st @ [c])"

definition path_root :: "string \<Rightarrow> string" where
  "path_root p = (if startswith p ''//'' \<and> \<not> startswith p ''///'' then ''//'' else ''/'')"

definition resolve_lexically :: "string \<Rightarrow> string \<Rightarrow> string" where
  "resolve_lexically cur arg =
     (if startswith arg ''/''
      then path_root arg @ str_join ''/'' (foldl lex_step [] (str_split arg CHR ''/''))
      else path_root cur
           @ str_join ''/''
               (foldl lex_step (foldl lex_step [] (str_split cur CHR ''/''))
                  (str_split arg CHR ''/'')))"

definition upload_error :: "'w env \<Rightarrow> 'w tab \<Rightarrow> string \<Rightarrow> string \<Rightarrow> exn option" where
  \<comment> \<open>the error \<^verbatim>\<open>self.sftp.put(src, dst)\<close> meets in state \<open>s\<close>, if any\<close>
  "upload_error env s src dst =
     (if sftp s
      then (case exec env (world s) (SftpPut src dst) of Inl e \<Rightarrow> Some e | Inr w \<Rightarrow> None)
      else Some AttributeError)"

definition succeeds :: "exn + 'a \<Rightarrow> bool" where
  "succeeds r = (case r of Inl e \<Rightarrow> False | Inr v \<Rightarrow> True)"

definition has_channel :: "'w tab \<Rightarrow> bool" where
  "has_channel s = (case ssh_terminal s of None \<Rightarrow> False | Some t \<Rightarrow> channel t)"

definition world_after_channel_close :: "'w env \<Rightarrow> 'w tab \<Rightarrow> 'w" where
  \<comment> \<open>the world in which \<^verbatim>\<open>close_tab\<close> reaches \<^verbatim>\<open>widget.sftp.close()\<close>\<close>
  "world_after_channel_close env s =
     (case ssh_terminal s of
        None \<Rightarrow> world s
      | Some t \<Rightarrow>
          if channel t
          then (case exec env (world s) ChannelClose of Inl e \<Rightarrow> world s | Inr w \<Rightarrow> w)
          else world s)"

definition same_credentials :: "pydict \<Rightarrow> pydict \<Rightarrow> bool" where
  "same_credentials c1 c2 =
     (map_of c1 ''server'' = map_of c2 ''server'' \<and> map_of c1 ''port'' = map_of c2 ''port''
      \<and> map_of c1 ''username'' = map_of c2 ''username''
      \<and> map_of c1 ''password'' = map_of c2 ''password'')"

definition with_cfg :: "pydict \<Rightarrow> 'w outcome \<Rightarrow> 'w outcome" where
  "with_cfg c r = (case r of (s, x) \<Rightarrow> (s\<lparr>cfg := c\<rparr>, x))"

definition cfg_indep :: "('w tab \<Rightarrow> 'w outcome) \<Rightarrow> bool" where
  \<comment> \<open>a step that neither reads nor writes the profile\<close>
  "cfg_indep f = (\<forall>s c. f (s\<lparr>cfg := c\<rparr>) = with_cfg c (f s))"

definition emits :: "(event \<Rightarrow> bool) \<Rightarrow> ('w tab \<Rightarrow> 'w outcome) \<Rightarrow> bool" where
  \<comment> \<open>a step that only appends to the trace, and only events satisfying \<open>P\<close>\<close>
  "emits P f = (\<forall>s. \<exists>evs. trace (fst (f s)) = trace s @ evs \<and> list_all P evs)"

definition auth_with :: "exn + json \<Rightarrow> json \<Rightarrow> event \<Rightarrow> bool" where
  \<comment> \<open>if the event is the authentication call, its arguments are these\<close>
  "auth_with username password ev =
     (case ev of
        Call (TransportConnect u p) \<Rightarrow> username = Inr u \<and> p = password
      | _ \<Rightarrow> True)"

text \<open>
  The second \<^verbatim>\<open>try\<close> of \<^verbatim>\<open>connect_all\<close> with the four profile lookups taken out,
  used to reason about which parts of the profile it depends on.
\<close>

definition connect_steps ::
  "'w env \<Rightarrow> json \<Rightarrow> int \<Rightarrow> exn + json \<Rightarrow> json \<Rightarrow> 'w tab \<Rightarrow> 'w outcome" where
  "connect_steps env server port username password s0 =
     then_do (invoke env (TransportNew server port) s0)
       (\<lambda>s1. case username of
          Inl e \<Rightarrow> raise e s1
        | Inr u \<Rightarrow>
           then_do (invoke env (TransportConnect u password) s1)
             (\<lambda>s2. then_do (invoke env SftpFromTransport (s2\<lparr>transport := True\<rparr>))
                (\<lambda>s3. terminal_open env
                   (s3\<lparr>sftp := True,
                       ssh_terminal := Some \<lparr>channel = False, running = False\<rparr>\<rparr>))))"

definition connect_attempt :: "'w env \<Rightarrow> pydict \<Rightarrow> 'w tab \<Rightarrow> 'w outcome" where
  "connect_attempt env c s0 =
     try_except
       (case dict_item c ''server'' of
          Inl e \<Rightarrow> raise e s0
        | Inr server \<Rightarrow>
           (case py_int env (dict_get c ''port'' (JInt 22)) of
              Inl e \<Rightarrow> raise e s0
            | Inr port \<Rightarrow>
               connect_steps env server port (dict_item c ''username'')
                 (dict_get c ''password'' JNull) s0))
       (\<lambda>e s'. ok (log (MsgBox ''Connect Error'' e) s'))"

subsection \<open>A concrete environment and tab for examples\<close>

text \<open>
  The example world is the list of the calls that took effect. \<open>refused\<close> selects the
  calls that fail and \<open>listing\<close> answers the remote listing; no remote path is a
  directory, and the host joins local paths as \<^verbatim>\<open>posixpath\<close> does.
\<close>

definition demo_env ::
  "(call \<Rightarrow> bool) \<Rightarrow> (string \<Rightarrow> exn + (string \<times> int option) list) \<Rightarrow> call list env" where
  "demo_env refused listing =
     \<lparr>exec = (\<lambda>w c. if refused c then Inl (Failure ''refused'') else Inr (w @ [c])),
      sftp_listdir_attr = (\<lambda>w p. listing p),
      sftp_stat = (\<lambda>w p. Inl (Failure ''no such file'')),
      os_listdir = (\<lambda>w p. Inr []),
      os_isdir = (\<lambda>w p. False),
      os_path_join = posixpath_join,
      mkstemp = (\<lambda>w pre suf. Inr (pre @ ''tmp'' @ suf, w)),
      int_of_str = (\<lambda>x. if x = ''22'' then Inr 22 else Inl ValueError)\<rparr>"

definition demo_tab :: "call list tab" where
  "demo_tab =
     \<lparr>cfg = [(''server'', JStr ''h''), (''port'', JInt 22), (''username'', JStr ''u''),
             (''password'', JStr ''p''), (''keyfile'', JNull), (''remote_path'', JStr ''/a''),
             (''local_path'', JStr ''/home/u'')],
      remote_path = ''/a'',
      local_path = ''/home/u'',
      sftp = True,
      transport = True,
      ssh_terminal = Some \<lparr>channel = True, running = True\<rparr>,
      remote_list = [Item ''..'' None, Item ''d/'' (Some ''d'')],
      remote_label = ''Remote: /a'',
      local_list = [Item ''..'' None, Item ''file.txt'' (Some ''file.txt'')],
      local_label = ''Local: /home/u'',
      term_in = [],
      world = [],
      trace = []\<rparr>"

definition demo_dialog :: config_dialog where
  "demo_dialog =
     \<lparr>dlg_server = ''h'', dlg_port = ''22'', dlg_username = ''u'', dlg_password = ''p'',
      dlg_keyfile = ''C:/keys/id_rsa'', dlg_remote_path = ''/'', dlg_local_path = []\<rparr>"

section \<open>Lemmas on strings and paths\<close>

lemma slash_rooted_iff: "slash_rooted p \<longleftrightarrow> (\<exists>q. p = CHR ''/'' # q)"
  by (cases p) (auto simp: slash_rooted_def startswith_def)

lemma rev_dropWhile_rev_prefix:
  "p = rev (dropWhile P (rev p)) @ rev (takeWhile P (rev p))"
proof -
  have "rev p = takeWhile P (rev p) @ dropWhile P (rev p)" by simp
  then have "rev (rev p) = rev (takeWhile P (rev p) @ dropWhile P (rev p))" by (rule arg_cong)
  then show ?thesis by (simp only: rev_append rev_rev_ident)
qed

lemma take_dropWhile_rev:
  "take (length (dropWhile P (rev p))) p = rev (dropWhile P (rev p))"
proof -
  let ?a = "rev (dropWhile P (rev p))"
  have "take (length ?a) (?a @ rev (takeWhile P (rev p))) = ?a" by simp
  then show ?thesis using rev_dropWhile_rev_prefix[of p P] by simp
qed

lemma dirname_head:
  "take (nat (rfind p c + 1)) p = rev (dropWhile (\<lambda>x. x \<noteq> c) (rev p))"
  by (simp add: rfind_def take_dropWhile_rev)

lemma rstrip_append_keep:
  "x \<notin> set chars \<Longrightarrow> rstrip (p @ [x]) chars = p @ [x]"
  by (simp add: rstrip_def)

lemma dropWhile_replicate_append:
  "P c \<Longrightarrow> dropWhile P (replicate k c @ xs) = dropWhile P xs"
  by (induction k) simp_all

lemma rstrip_replicate:
  "c \<in> set chars \<Longrightarrow> rstrip (p @ replicate k c) chars = rstrip p chars"
  by (simp add: rstrip_def dropWhile_replicate_append)

lemma rstrip_Cons_rooted:
  assumes "rstrip (x # p) chars \<noteq> []"
  shows "\<exists>q. rstrip (x # p) chars = x # q"
proof -
  obtain y q where yq: "rstrip (x # p) chars = y # q"
    using assms by (cases "rstrip (x # p) chars") auto
  have "x # p = rstrip (x # p) chars @ rev (takeWhile (\<lambda>c. c \<in> set chars) (rev (x # p)))"
    unfolding rstrip_def by (rule rev_dropWhile_rev_prefix)
  then have "x # p = y # (q @ rev (takeWhile (\<lambda>c. c \<in> set chars) (rev (x # p))))"
    by (simp only: yq append_Cons)
  then have "x = y" by simp
  then show ?thesis using yq by simp
qed

lemma posixpath_dirname_eq:
  "posixpath_dirname p =
     (let head = rev (dropWhile (\<lambda>x. x \<noteq> CHR ''/'') (rev p))
      in if head \<noteq> [] \<and> head \<noteq> replicate (length head) CHR ''/''
         then rstrip head ''/'' else head)"
  by (simp only: posixpath_dirname_def dirname_head Let_def)

lemma dirname_rooted:
  assumes "slash_rooted p"
  shows "slash_rooted (posixpath_dirname p)"
proof -
  obtain q where p: "p = CHR ''/'' # q" using assms by (auto simp: slash_rooted_iff)
  define head where "head = rev (dropWhile (\<lambda>x. x \<noteq> CHR ''/'') (rev p))"
  have dh: "posixpath_dirname p =
      (if head \<noteq> [] \<and> head \<noteq> replicate (length head) CHR ''/'' then rstrip head ''/'' else head)"
    by (simp only: posixpath_dirname_eq Let_def head_def)
  have "CHR ''/'' \<in> set (rev p)" by (simp add: p)
  then have ne: "head \<noteq> []"
    by (simp add: head_def dropWhile_eq_Nil_conv)
  obtain t where t: "p = head @ t" unfolding head_def using rev_dropWhile_rev_prefix by blast
  from ne obtain y h where h: "head = y # h" by (cases head) auto
  have "CHR ''/'' # q = y # (h @ t)" using t p h by simp
  then have "y = CHR ''/''" by simp
  with h have hd: "head = CHR ''/'' # h" by simp
  show ?thesis
  proof (cases "head \<noteq> replicate (length head) CHR ''/''")
    case True
    have "rstrip head ''/'' \<noteq> []"
    proof
      assume "rstrip head ''/'' = []"
      then have "dropWhile (\<lambda>c. c \<in> set ''/'') (rev head) = []" by (simp add: rstrip_def)
      then have "\<forall>c \<in> set head. c = CHR ''/''" by (simp add: dropWhile_eq_Nil_conv)
      then have "head = replicate (length head) CHR ''/''"
        by (simp add: replicate_length_same)
      with True show False by simp
    qed
    then obtain r where "rstrip head ''/'' = CHR ''/'' # r"
      using rstrip_Cons_rooted[of "CHR ''/''" h "''/''"] hd by auto
    then show ?thesis using True ne
      by (simp add: dh slash_rooted_iff)
  next
    case False
    then show ?thesis using hd
      by (simp add: dh slash_rooted_iff)
  qed
qed

lemma parent_path_rooted: "slash_rooted r \<Longrightarrow> slash_rooted (parent_path r)"
proof -
  assume r: "slash_rooted r"
  then obtain q where q: "r = CHR ''/'' # q" by (auto simp: slash_rooted_iff)
  show ?thesis
  proof (cases "rstrip r ''/'' = []")
    case True
    then show ?thesis
      by (simp add: parent_path_def posixpath_dirname_def rfind_def Let_def slash_rooted_iff)
  next
    case False
    then have "slash_rooted (rstrip r ''/'')"
      using rstrip_Cons_rooted[of "CHR ''/''" q "''/''"] q by (auto simp: slash_rooted_iff)
    then have "slash_rooted (posixpath_dirname (rstrip r ''/''))" by (rule dirname_rooted)
    then show ?thesis by (auto simp: parent_path_def Let_def slash_rooted_iff)
  qed
qed

lemma join_rooted: "slash_rooted a \<Longrightarrow> slash_rooted (posixpath_join a b)"
  by (cases b) (auto simp: posixpath_join_def slash_rooted_iff startswith_def)

lemma normpath_rooted: "slash_rooted p \<Longrightarrow> slash_rooted (posixpath_normpath p)"
  by (auto simp: posixpath_normpath_def slash_rooted_def Let_def startswith_def)

lemma str_split_nonempty: "str_split a c \<noteq> []"
  by (induction a) simp_all

lemma str_split_append:
  "str_split (a @ c # b) c = str_split a c @ str_split b c"
proof (induction a)
  case Nil
  then show ?case by simp
next
  case (Cons x a)
  obtain w ws where w: "str_split a c = w # ws"
    using str_split_nonempty[of a c] by (cases "str_split a c") auto
  show ?case using Cons w by simp
qed

lemma lex_step_keeps: "''..'' \<notin> set st \<Longrightarrow> ''..'' \<notin> set (lex_step st x)"
  by (auto simp: lex_step_def dest: in_set_butlastD)

lemma normpath_step_lex:
  assumes "0 < n" "''..'' \<notin> set st"
  shows "normpath_step n st x = lex_step st x"
proof -
  have nl: "st = [] \<or> last st \<noteq> ''..''"
  proof (cases "st = []")
    case True
    then show ?thesis by simp
  next
    case False
    then have "last st \<in> set st" by (rule last_in_set)
    then show ?thesis using assms(2) by auto
  qed
  show ?thesis using nl assms(1) by (auto simp: normpath_step_def lex_step_def)
qed

lemma foldl_normpath_step_lex:
  "0 < n \<Longrightarrow> ''..'' \<notin> set st \<Longrightarrow> foldl (normpath_step n) st xs = foldl lex_step st xs"
proof (induction xs arbitrary: st)
  case Nil
  then show ?case by simp
next
  case (Cons x xs)
  have "normpath_step n st x = lex_step st x" using Cons.prems by (rule normpath_step_lex)
  moreover have "''..'' \<notin> set (lex_step st x)" using Cons.prems(2) by (rule lex_step_keeps)
  ultimately show ?case using Cons.IH[OF Cons.prems(1)] by simp
qed

lemma path_root_cases: "path_root p = ''/'' \<or> path_root p = ''//''"
  by (simp add: path_root_def)

lemma normpath_rooted_eq:
  assumes "slash_rooted p"
  shows "posixpath_normpath p
         = path_root p @ str_join ''/'' (foldl lex_step [] (str_split p CHR ''/''))"
proof -
  define n :: nat where "n = (if startswith p ''//'' \<and> \<not> startswith p ''///'' then 2 else 1)"
  have ne: "p \<noteq> []" using assms by (auto simp: slash_rooted_iff)
  have n0: "0 < n" by (simp add: n_def)
  have root: "replicate n CHR ''/'' = path_root p"
    by (simp add: n_def path_root_def numeral_2_eq_2)
  have st: "startswith p ''/''" using assms by (simp add: slash_rooted_def)
  have fl: "foldl (normpath_step n) [] (str_split p CHR ''/'')
            = foldl lex_step [] (str_split p CHR ''/'')"
    by (rule foldl_normpath_step_lex[OF n0]) simp
  have "posixpath_normpath p
        = (let path' = replicate n CHR ''/''
                       @ str_join ''/'' (foldl (normpath_step n) [] (str_split p CHR ''/''))
           in if path' = [] then ''.'' else path')"
    using ne st unfolding posixpath_normpath_def n_def by (simp add: Let_def)
  also have "\<dots> = path_root p @ str_join ''/'' (foldl lex_step [] (str_split p CHR ''/''))"
    using path_root_cases[of p] by (auto simp: Let_def root fl)
  finally show ?thesis .
qed

lemma endswith_slash_iff: "endswith a ''/'' \<longleftrightarrow> (\<exists>b. a = b @ ''/'')"
proof
  assume "endswith a ''/''"
  then have l: "1 \<le> length a" and d: "drop (length a - 1) a = ''/''"
    by (simp_all add: endswith_def)
  have "take (length a - 1) a @ drop (length a - 1) a = a" by (rule append_take_drop_id)
  then have "take (length a - 1) a @ ''/'' = a" by (simp only: d)
  then have "a = take (length a - 1) a @ ''/''" by (rule sym)
  then show "\<exists>b. a = b @ ''/''" by (rule exI)
next
  assume "\<exists>b. a = b @ ''/''"
  then show "endswith a ''/''" by (auto simp: endswith_def)
qed

lemma lex_components_join:
  assumes "cur \<noteq> []" "\<not> startswith arg ''/''"
  shows "foldl lex_step [] (str_split (posixpath_join cur arg) CHR ''/'')
         = foldl lex_step (foldl lex_step [] (str_split cur CHR ''/'')) (str_split arg CHR ''/'')"
proof (cases "endswith cur ''/''")
  case True
  then obtain b where b: "cur = b @ ''/''" by (auto simp: endswith_slash_iff)
  have j: "posixpath_join cur arg = b @ CHR ''/'' # arg"
    using True assms by (simp add: posixpath_join_def b)
  have c: "str_split cur CHR ''/'' = str_split b CHR ''/'' @ [[]]"
    using str_split_append[of b "CHR ''/''" "[]"] by (simp add: b)
  show ?thesis by (simp add: j c str_split_append lex_step_def)
next
  case False
  then have j: "posixpath_join cur arg = cur @ CHR ''/'' # arg"
    using assms by (simp add: posixpath_join_def)
  show ?thesis by (simp add: j str_split_append)
qed

lemma path_root_join:
  assumes "slash_rooted cur" "\<not> startswith arg ''/''"
  shows "path_root (posixpath_join cur arg) = path_root cur"
proof -
  obtain q where q: "cur = CHR ''/'' # q" using assms(1) by (auto simp: slash_rooted_iff)
  have a0: "arg = [] \<or> (\<exists>x r. arg = x # r \<and> x \<noteq> CHR ''/'')"
    using assms(2) by (cases arg) (auto simp: startswith_def)
  show ?thesis
  proof (cases q)
    case Nil
    then show ?thesis using q a0
      by (auto simp: posixpath_join_def path_root_def startswith_def endswith_def)
  next
    case (Cons y q')
    show ?thesis
    proof (cases q')
      case Nil
      then show ?thesis using q Cons a0
        by (auto simp: posixpath_join_def path_root_def startswith_def endswith_def)
    next
      case (Cons z q'')
      then show ?thesis using q \<open>q = y # q'\<close> assms(2)
        by (auto simp: posixpath_join_def path_root_def startswith_def)
    qed
  qed
qed

lemma normpath_join_resolve:
  assumes "slash_rooted cur"
  shows "posixpath_normpath (posixpath_join cur arg) = resolve_lexically cur arg"
proof (cases "startswith arg ''/''")
  case True
  then have j: "posixpath_join cur arg = arg" by (simp add: posixpath_join_def)
  have "slash_rooted arg" using True by (simp add: slash_rooted_def)
  then show ?thesis using True by (simp add: j normpath_rooted_eq resolve_lexically_def)
next
  case False
  have ne: "cur \<noteq> []" using assms by (auto simp: slash_rooted_iff)
  have r: "slash_rooted (posixpath_join cur arg)" using assms by (rule join_rooted)
  show ?thesis
    using False
    by (simp add: normpath_rooted_eq[OF r] path_root_join[OF assms False]
        lex_components_join[OF ne False] resolve_lexically_def)
qed

lemma rstrip_keep_last:
  assumes "p \<noteq> []" "last p \<notin> set chars"
  shows "rstrip p chars = p"
proof -
  have "p = butlast p @ [last p]" using assms(1) by simp
  then show ?thesis using rstrip_append_keep[OF assms(2), of "butlast p"] by simp
qed

lemma dropWhile_append_all:
  "\<forall>x \<in> set xs. P x \<Longrightarrow> dropWhile P (xs @ ys) = dropWhile P ys"
  by (induction xs) simp_all

lemma parent_path_only_slashes: "parent_path (replicate k CHR ''/'') = ''/''"
proof -
  have "rstrip (replicate k CHR ''/'') ''/'' = []"
    using rstrip_replicate[of "CHR ''/''" "''/''" "[]" k] by (simp add: rstrip_def)
  then show ?thesis
    by (simp add: parent_path_def posixpath_dirname_eq)
qed

lemma parent_path_decompose:
  assumes c: "c \<noteq> []" "CHR ''/'' \<notin> set c"
    and j: "0 < j"
    and pre: "pre = [] \<or> last pre \<noteq> CHR ''/''"
  shows "parent_path (pre @ replicate j CHR ''/'' @ c @ replicate k CHR ''/'')
         = (if pre = [] then replicate j CHR ''/'' else pre)"
proof -
  let ?sl = "replicate j CHR ''/''"
  let ?R = "pre @ ?sl @ c @ replicate k CHR ''/''"
  have lastc: "last c \<noteq> CHR ''/''" using c by (metis last_in_set)
  have "rstrip ?R ''/'' = rstrip ((pre @ ?sl @ c) @ replicate k CHR ''/'') ''/''" by simp
  also have "\<dots> = rstrip (pre @ ?sl @ c) ''/''"
    by (rule rstrip_replicate) simp
  also have "\<dots> = pre @ ?sl @ c"
    by (rule rstrip_keep_last) (use c lastc in simp_all)
  finally have rs: "rstrip ?R ''/'' = pre @ ?sl @ c" .
  obtain j' where j': "j = Suc j'" using j by (cases j) auto
  have "dropWhile (\<lambda>x. x \<noteq> CHR ''/'') (rev (pre @ ?sl @ c))
        = dropWhile (\<lambda>x. x \<noteq> CHR ''/'') (rev c @ (?sl @ rev pre))" by simp
  also have "\<dots> = dropWhile (\<lambda>x. x \<noteq> CHR ''/'') (?sl @ rev pre)"
    by (rule dropWhile_append_all) (use c in auto)
  also have "\<dots> = ?sl @ rev pre" by (simp add: j')
  finally have "rev (dropWhile (\<lambda>x. x \<noteq> CHR ''/'') (rev (pre @ ?sl @ c))) = pre @ ?sl"
    by simp
  then have dn: "posixpath_dirname (pre @ ?sl @ c) =
      (if pre @ ?sl \<noteq> replicate (length (pre @ ?sl)) CHR ''/'' then rstrip (pre @ ?sl) ''/'' else pre @ ?sl)"
    by (simp add: posixpath_dirname_eq j')
  show ?thesis
  proof (cases "pre = []")
    case True
    then show ?thesis using dn rs j' by (simp add: parent_path_def)
  next
    case False
    with pre have lp: "last pre \<noteq> CHR ''/''" by simp
    have "last pre \<in> set pre" using False by simp
    have neq: "pre @ ?sl \<noteq> replicate (length (pre @ ?sl)) CHR ''/''"
    proof
      assume "pre @ ?sl = replicate (length (pre @ ?sl)) CHR ''/''"
      then have "set (pre @ ?sl) \<subseteq> {CHR ''/''}" by (metis set_replicate_conv_if empty_subsetI subset_refl)
      then show False using \<open>last pre \<in> set pre\<close> lp by auto
    qed
    have "rstrip (pre @ ?sl) ''/'' = rstrip pre ''/''" by (rule rstrip_replicate) simp
    also have "\<dots> = pre" by (rule rstrip_keep_last) (use False lp in simp_all)
    finally have "posixpath_dirname (pre @ ?sl @ c) = pre" using dn neq by simp
    then show ?thesis using False rs by (simp add: parent_path_def)
  qed
qed

section \<open>Lemmas on the operations\<close>

lemma add_remote_entries_eq:
  "add_remote_entries fs s =
     (if list_all (\<lambda>(filename, st_mode). st_mode \<noteq> None) fs
      then ok (s\<lparr>remote_list := remote_list s @ shown_entries fs\<rparr>)
      else raise TypeError (s\<lparr>remote_list := remote_list s @ shown_entries fs\<rparr>))"
proof (induction fs arbitrary: s)
  case Nil
  then show ?case by (simp add: ok_def)
next
  case (Cons f fs)
  obtain filename st_mode where f: "f = (filename, st_mode)" by (cases f)
  show ?case
  proof (cases st_mode)
    case None
    then show ?thesis by (simp add: f S_ISDIR_def raise_def)
  next
    case (Some m)
    then show ?thesis by (simp add: f S_ISDIR_def Cons.IH ok_def raise_def)
  qed
qed

lemma list_remote_files_eq:
  "list_remote_files env s =
     ok (s\<lparr>remote_list := Item ''..'' None # listed_items env s,
            remote_label := (case listing_error env s of
                               None \<Rightarrow> ''Remote: '' @ remote_path s
                             | Some e \<Rightarrow> remote_label s),
            trace := trace s @ ListRemoteFiles
                     # (case listing_error env s of None \<Rightarrow> [] | Some e \<Rightarrow> [Print e])\<rparr>)"
  by (simp add: list_remote_files_def listing_error_def listed_items_def add_remote_entries_eq
        try_except_def then_do_def ok_def raise_def log_def Let_def
      split: sum.splits)

lemma list_remote_files_remote_path [simp]:
  "remote_path (fst (list_remote_files env s)) = remote_path s"
  by (simp add: list_remote_files_eq ok_def)

lemma list_remote_files_no_raise [simp]: "snd (list_remote_files env s) = None"
  by (simp add: list_remote_files_eq ok_def)

lemma invoke_remote_path [simp]: "remote_path (fst (invoke env c s)) = remote_path s"
  by (simp add: invoke_def ok_def raise_def log_def split: sum.splits)

lemma sftp_call_remote_path [simp]: "remote_path (fst (sftp_call env c s)) = remote_path s"
  by (simp add: sftp_call_def raise_def)

lemma then_do_remote_path:
  assumes "\<And>s'. remote_path (fst (k s')) = remote_path s'"
  shows "remote_path (fst (then_do r k)) = remote_path (fst r)"
  using assms by (cases r) (simp add: then_do_def split: option.splits)

lemma try_except_remote_path:
  assumes "\<And>e s'. remote_path (fst (h e s')) = remote_path s'"
  shows "remote_path (fst (try_except r h)) = remote_path (fst r)"
  using assms by (cases r) (simp add: try_except_def split: option.splits)

lemma open_remote_file_remote_path [simp]:
  "remote_path (fst (open_remote_file env name path s)) = remote_path s"
  unfolding open_remote_file_def
  by (subst try_except_remote_path)
     (auto simp: ok_def log_def raise_def then_do_remote_path split: sum.splits)

lemma delete_remote_remote_path [simp]:
  "remote_path (fst (delete_remote env it s)) = remote_path s"
  unfolding delete_remote_def
  by (auto simp: raise_def Let_def then_do_remote_path try_except_remote_path split: option.splits)

lemma upload_file_remote_path [simp]:
  "remote_path (fst (upload_file env it s)) = remote_path s"
  unfolding upload_file_def
  by (auto simp: raise_def ok_def log_def Let_def then_do_remote_path try_except_remote_path
      split: option.splits)

lemma terminal_send_remote_path [simp]:
  "remote_path (fst (terminal_send env t s)) = remote_path s"
  by (simp add: terminal_send_def raise_def ok_def split: option.splits)

lemma send_term_remote_path:
  "remote_path (fst (send_term env s)) =
     (let t = strip (term_in s)
      in if t \<noteq> [] \<and> startswith t ''cd ''
         then posixpath_normpath (posixpath_join (remote_path s) (strip (drop 3 t)))
         else remote_path s)"
  unfolding send_term_def
  by (auto simp: Let_def ok_def then_do_remote_path)

lemma remote_double_remote_path:
  "remote_path (fst (remote_double env it s)) =
     (if item_name it = ''..'' then parent_path (remote_path s)
      else if is_dir env s (posixpath_join (remote_path s) (item_name it))
           then posixpath_join (remote_path s) (item_name it)
           else remote_path s)"
  by (simp add: remote_double_def Let_def)

lemma perform_rooted:
  "slash_rooted (remote_path s) \<Longrightarrow> slash_rooted (remote_path (fst (perform env a s)))"
  by (cases a)
     (simp_all add: remote_double_remote_path send_term_remote_path Let_def
        parent_path_rooted join_rooted normpath_rooted)

lemma run_rooted:
  "slash_rooted (remote_path s) \<Longrightarrow> slash_rooted (remote_path (run env acts s))"
  by (induction acts arbitrary: s) (simp_all add: perform_rooted)

lemma list_remote_files_trace:
  "trace (fst (list_remote_files env s)) =
     trace s @ ListRemoteFiles # (case listing_error env s of None \<Rightarrow> [] | Some e \<Rightarrow> [Print e])"
  by (simp add: list_remote_files_eq ok_def)

lemma list_remote_files_world [simp]: "world (fst (list_remote_files env s)) = world s"
  by (simp add: list_remote_files_eq ok_def)

lemma list_remote_files_local_path [simp]: "local_path (fst (list_remote_files env s)) = local_path s"
  by (simp add: list_remote_files_eq ok_def)

lemma list_remote_files_ssh_terminal [simp]:
  "ssh_terminal (fst (list_remote_files env s)) = ssh_terminal s"
  by (simp add: list_remote_files_eq ok_def)

lemma list_remote_files_outcome: "list_remote_files env s = ok (fst (list_remote_files env s))"
  using list_remote_files_no_raise[of env s] by (cases "list_remote_files env s") (simp add: ok_def)

lemma startswith_nonempty: "startswith t ''cd '' \<Longrightarrow> t \<noteq> []"
  by (auto simp: startswith_def)

section \<open>Which parts of the profile a connection reads\<close>

lemma cfg_indep_invoke: "cfg_indep (invoke env c)"
  by (simp add: cfg_indep_def with_cfg_def invoke_def ok_def raise_def log_def split: sum.splits)

lemma cfg_indep_ok: "cfg_indep ok"
  by (simp add: cfg_indep_def with_cfg_def ok_def)

lemma cfg_indep_raise: "cfg_indep (raise e)"
  by (simp add: cfg_indep_def with_cfg_def raise_def)

lemma cfg_indep_log: "cfg_indep (\<lambda>s. ok (log ev s))"
  by (simp add: cfg_indep_def with_cfg_def ok_def log_def)

lemma cfg_indep_then:
  "cfg_indep f \<Longrightarrow> cfg_indep k \<Longrightarrow> cfg_indep (\<lambda>s. then_do (f s) k)"
  by (auto simp: cfg_indep_def with_cfg_def then_do_def split: prod.splits option.splits)

lemma cfg_indep_try:
  "cfg_indep f \<Longrightarrow> (\<And>e. cfg_indep (h e)) \<Longrightarrow> cfg_indep (\<lambda>s. try_except (f s) h)"
  by (auto simp: cfg_indep_def with_cfg_def try_except_def split: prod.splits option.splits)

lemma cfg_indep_if:
  "cfg_indep f \<Longrightarrow> cfg_indep g \<Longrightarrow> (\<And>s c. b (s\<lparr>cfg := c\<rparr>) = b s)
   \<Longrightarrow> cfg_indep (\<lambda>s. if b s then f s else g s)"
  by (auto simp: cfg_indep_def)

lemma cfg_indep_pre:
  "cfg_indep f \<Longrightarrow> (\<And>s c. u (s\<lparr>cfg := c\<rparr>) = (u s)\<lparr>cfg := c\<rparr>) \<Longrightarrow> cfg_indep (\<lambda>s. f (u s))"
  by (auto simp: cfg_indep_def)

lemma cfg_indep_keeps: "cfg_indep f \<Longrightarrow> cfg (fst (f s)) = cfg s"
proof -
  assume "cfg_indep f"
  then have eq: "f (s\<lparr>cfg := cfg s\<rparr>) = with_cfg (cfg s) (f s)" unfolding cfg_indep_def by blast
  obtain a b where ab: "f s = (a, b)" by (cases "f s")
  have "fst (f s) = fst (with_cfg (cfg s) (f s))" using eq by simp
  then have "a = a\<lparr>cfg := cfg s\<rparr>" by (simp add: ab with_cfg_def)
  then have "cfg a = cfg (a\<lparr>cfg := cfg s\<rparr>)" by (rule arg_cong)
  then show ?thesis by (simp add: ab)
qed

lemma cfg_indep_terminal_open: "cfg_indep (terminal_open env)"
proof -
  have a: "cfg_indep (\<lambda>s3. ok (s3\<lparr>ssh_terminal := map_option (\<lambda>t. t\<lparr>running := True\<rparr>) (ssh_terminal s3)\<rparr>))"
    by (rule cfg_indep_pre[OF cfg_indep_ok]) simp
  have b: "cfg_indep (\<lambda>s2. then_do (invoke env InvokeShell s2)
        (\<lambda>s3. ok (s3\<lparr>ssh_terminal := map_option (\<lambda>t. t\<lparr>running := True\<rparr>) (ssh_terminal s3)\<rparr>)))"
    by (rule cfg_indep_then[OF cfg_indep_invoke a])
  have c: "cfg_indep (\<lambda>s1. invoke env GetPty
        (s1\<lparr>ssh_terminal := map_option (\<lambda>t. t\<lparr>channel := True\<rparr>) (ssh_terminal s1)\<rparr>))"
    by (rule cfg_indep_pre[OF cfg_indep_invoke]) simp
  have d: "cfg_indep (\<lambda>s1. then_do (invoke env GetPty
        (s1\<lparr>ssh_terminal := map_option (\<lambda>t. t\<lparr>channel := True\<rparr>) (ssh_terminal s1)\<rparr>))
        (\<lambda>s2. then_do (invoke env InvokeShell s2)
        (\<lambda>s3. ok (s3\<lparr>ssh_terminal := map_option (\<lambda>t. t\<lparr>running := True\<rparr>) (ssh_terminal s3)\<rparr>))))"
    by (rule cfg_indep_then[OF c b])
  have e: "cfg_indep (\<lambda>s. then_do (invoke env OpenSession s) (\<lambda>s1. then_do (invoke env GetPty
        (s1\<lparr>ssh_terminal := map_option (\<lambda>t. t\<lparr>channel := True\<rparr>) (ssh_terminal s1)\<rparr>))
        (\<lambda>s2. then_do (invoke env InvokeShell s2)
        (\<lambda>s3. ok (s3\<lparr>ssh_terminal := map_option (\<lambda>t. t\<lparr>running := True\<rparr>) (ssh_terminal s3)\<rparr>)))))"
    by (rule cfg_indep_then[OF cfg_indep_invoke d])
  have "cfg_indep (\<lambda>s. terminal_open env s)"
    unfolding terminal_open_def by (rule cfg_indep_try[OF e]) (rule cfg_indep_ok)
  then show ?thesis by simp
qed

lemma cfg_indep_close_previous: "cfg_indep (close_previous env)"
proof -
  have a: "cfg_indep (\<lambda>s. if sftp s then invoke env SftpClose s else ok s)"
    by (rule cfg_indep_if[OF cfg_indep_invoke cfg_indep_ok]) simp
  have b: "cfg_indep (\<lambda>s1. if transport s1 then invoke env TransportClose s1 else ok s1)"
    by (rule cfg_indep_if[OF cfg_indep_invoke cfg_indep_ok]) simp
  have "cfg_indep (\<lambda>s. close_previous env s)"
    unfolding close_previous_def
    by (rule cfg_indep_try[OF cfg_indep_then[OF a b]]) (rule cfg_indep_ok)
  then show ?thesis by simp
qed

lemma cfg_indep_connect_steps: "cfg_indep (connect_steps env server port username password)"
proof -
  have a: "cfg_indep (\<lambda>s3. terminal_open env
                   (s3\<lparr>sftp := True, ssh_terminal := Some \<lparr>channel = False, running = False\<rparr>\<rparr>))"
    by (rule cfg_indep_pre[OF cfg_indep_terminal_open]) simp
  have b: "cfg_indep (\<lambda>s2. invoke env SftpFromTransport (s2\<lparr>transport := True\<rparr>))"
    by (rule cfg_indep_pre[OF cfg_indep_invoke]) simp
  note c = cfg_indep_then[OF b a]
  have d: "cfg_indep (\<lambda>s1. case username of Inl e \<Rightarrow> raise e s1
        | Inr u \<Rightarrow> then_do (invoke env (TransportConnect u password) s1)
             (\<lambda>s2. then_do (invoke env SftpFromTransport (s2\<lparr>transport := True\<rparr>))
                (\<lambda>s3. terminal_open env
                   (s3\<lparr>sftp := True, ssh_terminal := Some \<lparr>channel = False, running = False\<rparr>\<rparr>))))"
  proof (cases username)
    case (Inl e)
    then show ?thesis using cfg_indep_raise[of e] by (simp add: cfg_indep_def)
  next
    case (Inr u)
    then show ?thesis using cfg_indep_then[OF cfg_indep_invoke c, of env "TransportConnect u password"]
      by simp
  qed
  have "cfg_indep (\<lambda>s0. connect_steps env server port username password s0)"
    unfolding connect_steps_def by (rule cfg_indep_then[OF cfg_indep_invoke d])
  then show ?thesis by simp
qed

lemma cfg_indep_connect_attempt: "cfg_indep (connect_attempt env c)"
proof -
  have a: "cfg_indep (\<lambda>s0. case dict_item c ''server'' of
          Inl e \<Rightarrow> raise e s0
        | Inr server \<Rightarrow>
           (case py_int env (dict_get c ''port'' (JInt 22)) of
              Inl e \<Rightarrow> raise e s0
            | Inr port \<Rightarrow>
               connect_steps env server port (dict_item c ''username'')
                 (dict_get c ''password'' JNull) s0))"
  proof (cases "dict_item c ''server''")
    case (Inl e)
    then show ?thesis using cfg_indep_raise[of e] by (simp add: cfg_indep_def)
  next
    case server: (Inr server)
    show ?thesis
    proof (cases "py_int env (dict_get c ''port'' (JInt 22))")
      case (Inl e)
      then show ?thesis using server cfg_indep_raise[of e] by (simp add: cfg_indep_def)
    next
      case (Inr port)
      then show ?thesis
        using server cfg_indep_connect_steps[of env server port "dict_item c ''username''"
            "dict_get c ''password'' JNull"]
        by (simp add: cfg_indep_def)
    qed
  qed
  have "cfg_indep (\<lambda>s0. connect_attempt env c s0)"
    unfolding connect_attempt_def by (rule cfg_indep_try[OF a]) (rule cfg_indep_log)
  then show ?thesis by simp
qed

lemma invoke_keeps_cfg: "cfg (fst (invoke env c s)) = cfg s"
  by (rule cfg_indep_keeps[OF cfg_indep_invoke])

lemma then_do_cong_cfg:
  assumes "\<And>s1. cfg s1 = cfg (fst r) \<Longrightarrow> k s1 = k' s1"
  shows "then_do r k = then_do r k'"
  using assms by (cases r) (auto simp: then_do_def split: option.splits)

lemma connect_all_unfold:
  "connect_all env s = then_do (close_previous env s) (connect_attempt env (cfg s))"
proof -
  have c0: "cfg (fst (close_previous env s)) = cfg s"
    by (rule cfg_indep_keeps[OF cfg_indep_close_previous])
  show ?thesis
    unfolding connect_all_def
  proof (rule then_do_cong_cfg)
    fix s0 :: "'a tab"
    assume "cfg s0 = cfg (fst (close_previous env s))"
    then have s0: "cfg s0 = cfg s" using c0 by simp
    have inner: "\<And>server port.
        then_do (invoke env (TransportNew server port) s0)
          (\<lambda>s1. case dict_item (cfg s1) ''username'' of
                   Inl e \<Rightarrow> raise e s1
                 | Inr username \<Rightarrow>
                     then_do (invoke env (TransportConnect username (dict_get (cfg s1) ''password'' JNull)) s1)
                       (\<lambda>s2. then_do (invoke env SftpFromTransport (s2\<lparr>transport := True\<rparr>))
                          (\<lambda>s3. terminal_open env
                             (s3\<lparr>sftp := True, ssh_terminal := Some \<lparr>channel = False, running = False\<rparr>\<rparr>))))
        = connect_steps env server port (dict_item (cfg s) ''username'') (dict_get (cfg s) ''password'' JNull) s0"
      unfolding connect_steps_def
      by (rule then_do_cong_cfg) (simp add: invoke_keeps_cfg s0 split: sum.splits)
    show "try_except
            (case dict_item (cfg s0) ''server'' of
               Inl e \<Rightarrow> raise e s0
             | Inr server \<Rightarrow>
                (case py_int env (dict_get (cfg s0) ''port'' (JInt 22)) of
                   Inl e \<Rightarrow> raise e s0
                 | Inr port \<Rightarrow>
                    then_do (invoke env (TransportNew server port) s0)
                      (\<lambda>s1. case dict_item (cfg s1) ''username'' of
                         Inl e \<Rightarrow> raise e s1
                       | Inr username \<Rightarrow>
                          then_do
                            (invoke env
                               (TransportConnect username (dict_get (cfg s1) ''password'' JNull)) s1)
                            (\<lambda>s2. then_do (invoke env SftpFromTransport (s2\<lparr>transport := True\<rparr>))
                               (\<lambda>s3. terminal_open env
                                  (s3\<lparr>sftp := True,
                                      ssh_terminal := Some \<lparr>channel = False, running = False\<rparr>\<rparr>))))))
            (\<lambda>e s'. ok (log (MsgBox ''Connect Error'' e) s'))
          = connect_attempt env (cfg s) s0"
      unfolding connect_attempt_def by (simp only: inner s0)
  qed
qed

lemma connect_attempt_same:
  "same_credentials c1 c2 \<Longrightarrow> connect_attempt env c1 = connect_attempt env c2"
  by (rule ext) (simp add: same_credentials_def connect_attempt_def dict_item_def dict_get_def
      split: sum.splits option.splits)

lemma with_cfg_twice: "with_cfg c2 (with_cfg c1 r) = with_cfg c2 r"
  by (cases r) (simp add: with_cfg_def)

lemma connect_all_cfg:
  assumes "same_credentials c1 c2"
  shows "connect_all env (s\<lparr>cfg := c2\<rparr>) = with_cfg c2 (connect_all env (s\<lparr>cfg := c1\<rparr>))"
proof -
  let ?f = "\<lambda>s. then_do (close_previous env s) (connect_attempt env c1)"
  have ind: "cfg_indep ?f"
    by (rule cfg_indep_then[OF cfg_indep_close_previous cfg_indep_connect_attempt])
  have "connect_all env (s\<lparr>cfg := c2\<rparr>) = ?f (s\<lparr>cfg := c2\<rparr>)"
    by (simp add: connect_all_unfold connect_attempt_same[OF assms])
  also have "\<dots> = with_cfg c2 (?f s)" using ind unfolding cfg_indep_def by blast
  finally have l: "connect_all env (s\<lparr>cfg := c2\<rparr>) = with_cfg c2 (?f s)" .
  have "connect_all env (s\<lparr>cfg := c1\<rparr>) = ?f (s\<lparr>cfg := c1\<rparr>)"
    by (simp add: connect_all_unfold)
  also have "\<dots> = with_cfg c1 (?f s)" using ind unfolding cfg_indep_def by blast
  finally have r: "connect_all env (s\<lparr>cfg := c1\<rparr>) = with_cfg c1 (?f s)" .
  show ?thesis by (simp only: l r with_cfg_twice)
qed

lemma emits_invoke: "P (Call c) \<Longrightarrow> emits P (invoke env c)"
  by (simp add: emits_def invoke_def ok_def raise_def log_def split: sum.splits)

lemma emits_ok: "emits P ok"
  by (simp add: emits_def ok_def)

lemma emits_raise: "emits P (raise e)"
  by (simp add: emits_def raise_def)

lemma emits_log: "P ev \<Longrightarrow> emits P (\<lambda>s. ok (log ev s))"
  by (simp add: emits_def ok_def log_def)

lemma emits_then:
  assumes "emits P f" "emits P k"
  shows "emits P (\<lambda>s. then_do (f s) k)"
  unfolding emits_def
proof
  fix s
  obtain s1 x where fs: "f s = (s1, x)" by (cases "f s")
  obtain evs where e1: "trace s1 = trace s @ evs" "list_all P evs"
    using assms(1) fs unfolding emits_def by (metis fst_conv)
  show "\<exists>evs. trace (fst (then_do (f s) k)) = trace s @ evs \<and> list_all P evs"
  proof (cases x)
    case None
    obtain evs' where e2: "trace (fst (k s1)) = trace s1 @ evs'" "list_all P evs'"
      using assms(2) unfolding emits_def by blast
    have "trace (fst (then_do (f s) k)) = trace s @ (evs @ evs')"
      using None fs e1 e2 by (simp add: then_do_def)
    moreover have "list_all P (evs @ evs')" using e1 e2 by simp
    ultimately show ?thesis by blast
  next
    case (Some e)
    then show ?thesis using fs e1 by (auto simp: then_do_def)
  qed
qed

lemma emits_try:
  assumes "emits P f" "\<And>e. emits P (h e)"
  shows "emits P (\<lambda>s. try_except (f s) h)"
  unfolding emits_def
proof
  fix s
  obtain s1 x where fs: "f s = (s1, x)" by (cases "f s")
  obtain evs where e1: "trace s1 = trace s @ evs" "list_all P evs"
    using assms(1) fs unfolding emits_def by (metis fst_conv)
  show "\<exists>evs. trace (fst (try_except (f s) h)) = trace s @ evs \<and> list_all P evs"
  proof (cases x)
    case None
    then show ?thesis using fs e1 by (auto simp: try_except_def)
  next
    case (Some e)
    obtain evs' where e2: "trace (fst (h e s1)) = trace s1 @ evs'" "list_all P evs'"
      using assms(2)[of e] unfolding emits_def by blast
    have "trace (fst (try_except (f s) h)) = trace s @ (evs @ evs')"
      using Some fs e1 e2 by (simp add: try_except_def)
    moreover have "list_all P (evs @ evs')" using e1 e2 by simp
    ultimately show ?thesis by blast
  qed
qed

lemma emits_if: "emits P f \<Longrightarrow> emits P g \<Longrightarrow> emits P (\<lambda>s. if b s then f s else g s)"
  by (simp add: emits_def)

lemma emits_pre: "emits P f \<Longrightarrow> (\<And>s. trace (u s) = trace s) \<Longrightarrow> emits P (\<lambda>s. f (u s))"
  unfolding emits_def by (metis)

lemma map_of_dict_set:
  "map_of (dict_set k v d) k' = (if k' = k then Some v else map_of d k')"
  by (induction d) auto

lemma same_credentials_keyfile: "same_credentials c (dict_set ''keyfile'' v c)"
  by (simp add: same_credentials_def map_of_dict_set)

lemma emits_terminal_open: "emits (auth_with u p) (terminal_open env)"
proof -
  have a: "emits (auth_with u p)
      (\<lambda>s3. ok (s3\<lparr>ssh_terminal := map_option (\<lambda>t. t\<lparr>running := True\<rparr>) (ssh_terminal s3)\<rparr>))"
    by (rule emits_pre[OF emits_ok]) simp
  have b: "emits (auth_with u p) (\<lambda>s2. then_do (invoke env InvokeShell s2)
        (\<lambda>s3. ok (s3\<lparr>ssh_terminal := map_option (\<lambda>t. t\<lparr>running := True\<rparr>) (ssh_terminal s3)\<rparr>)))"
    by (rule emits_then[OF emits_invoke a]) (simp add: auth_with_def)
  have c: "emits (auth_with u p) (\<lambda>s1. invoke env GetPty
        (s1\<lparr>ssh_terminal := map_option (\<lambda>t. t\<lparr>channel := True\<rparr>) (ssh_terminal s1)\<rparr>))"
    by (rule emits_pre[OF emits_invoke]) (simp_all add: auth_with_def)
  note d = emits_then[OF c b]
  have e: "emits (auth_with u p) (invoke env OpenSession)"
    by (rule emits_invoke) (simp add: auth_with_def)
  have "emits (auth_with u p) (\<lambda>s. terminal_open env s)"
    unfolding terminal_open_def by (rule emits_try[OF emits_then[OF e d]]) (rule emits_ok)
  then show ?thesis by simp
qed

lemma emits_close_previous: "emits (auth_with u p) (close_previous env)"
proof -
  have a: "emits (auth_with u p) (\<lambda>s. if sftp s then invoke env SftpClose s else ok s)"
    by (rule emits_if[OF emits_invoke emits_ok]) (simp add: auth_with_def)
  have b: "emits (auth_with u p) (\<lambda>s1. if transport s1 then invoke env TransportClose s1 else ok s1)"
    by (rule emits_if[OF emits_invoke emits_ok]) (simp add: auth_with_def)
  have "emits (auth_with u p) (\<lambda>s. close_previous env s)"
    unfolding close_previous_def
    by (rule emits_try[OF emits_then[OF a b]]) (rule emits_ok)
  then show ?thesis by simp
qed

lemma emits_connect_steps:
  "emits (auth_with username password) (connect_steps env server port username password)"
proof -
  let ?P = "auth_with username password"
  have a: "emits ?P (\<lambda>s3. terminal_open env
                   (s3\<lparr>sftp := True, ssh_terminal := Some \<lparr>channel = False, running = False\<rparr>\<rparr>))"
    by (rule emits_pre[OF emits_terminal_open]) simp
  have b: "emits ?P (\<lambda>s2. invoke env SftpFromTransport (s2\<lparr>transport := True\<rparr>))"
    by (rule emits_pre[OF emits_invoke]) (simp_all add: auth_with_def)
  note c = emits_then[OF b a]
  have d: "emits ?P (\<lambda>s1. case username of Inl e \<Rightarrow> raise e s1
        | Inr u \<Rightarrow> then_do (invoke env (TransportConnect u password) s1)
             (\<lambda>s2. then_do (invoke env SftpFromTransport (s2\<lparr>transport := True\<rparr>))
                (\<lambda>s3. terminal_open env
                   (s3\<lparr>sftp := True, ssh_terminal := Some \<lparr>channel = False, running = False\<rparr>\<rparr>))))"
  proof (cases username)
    case (Inl e)
    then show ?thesis using emits_raise[of ?P e] by (simp add: emits_def)
  next
    case (Inr u)
    have "?P (Call (TransportConnect u password))" using Inr by (simp add: auth_with_def)
    then have "emits ?P (invoke env (TransportConnect u password))" by (rule emits_invoke)
    from emits_then[OF this c] show ?thesis using Inr by simp
  qed
  have e: "emits ?P (invoke env (TransportNew server port))"
    by (rule emits_invoke) (simp add: auth_with_def)
  have "emits ?P (\<lambda>s0. connect_steps env server port username password s0)"
    unfolding connect_steps_def by (rule emits_then[OF e d])
  then show ?thesis by simp
qed

lemma emits_connect_attempt:
  "emits (auth_with (dict_item c ''username'') (dict_get c ''password'' JNull))
     (connect_attempt env c)"
proof -
  let ?P = "auth_with (dict_item c ''username'') (dict_get c ''password'' JNull)"
  have a: "emits ?P (\<lambda>s0. case dict_item c ''server'' of
          Inl e \<Rightarrow> raise e s0
        | Inr server \<Rightarrow>
           (case py_int env (dict_get c ''port'' (JInt 22)) of
              Inl e \<Rightarrow> raise e s0
            | Inr port \<Rightarrow>
               connect_steps env server port (dict_item c ''username'')
                 (dict_get c ''password'' JNull) s0))"
  proof (cases "dict_item c ''server''")
    case (Inl e)
    then show ?thesis using emits_raise[of ?P e] by (simp add: emits_def)
  next
    case server: (Inr server)
    show ?thesis
    proof (cases "py_int env (dict_get c ''port'' (JInt 22))")
      case (Inl e)
      then show ?thesis using server emits_raise[of ?P e] by (simp add: emits_def)
    next
      case (Inr port)
      then show ?thesis
        using server emits_connect_steps[of "dict_item c ''username''"
            "dict_get c ''password'' JNull" env server port]
        by (simp add: emits_def)
    qed
  qed
  have l: "emits ?P (\<lambda>s. ok (log (MsgBox ''Connect Error'' e) s))" for e
    by (rule emits_log) (simp add: auth_with_def)
  have "emits ?P (\<lambda>s0. connect_attempt env c s0)"
    unfolding connect_attempt_def by (rule emits_try[OF a l])
  then show ?thesis by simp
qed

lemma connect_all_emits:
  "\<exists>evs. trace (fst (connect_all env s)) = trace s @ evs
         \<and> list_all (auth_with (dict_item (cfg s) ''username'') (dict_get (cfg s) ''password'' JNull)) evs"
proof -
  have "emits (auth_with (dict_item (cfg s) ''username'') (dict_get (cfg s) ''password'' JNull))
          (\<lambda>s'. then_do (close_previous env s') (connect_attempt env (cfg s)))"
    by (rule emits_then[OF emits_close_previous emits_connect_attempt])
  then show ?thesis unfolding emits_def connect_all_unfold by blast
qed

section \<open>Remote listing that fails (C1)\<close>

text \<open>
  C1, as stated: when the listing fails, the error is caught and printed, nothing is
  raised, and the remote browser still shows what it showed before. The last part does
  not hold: \<^verbatim>\<open>list_remote_files\<close> clears the list before it tries. In the example the
  browser showed the parent marker and the entry \<^verbatim>\<open>d/\<close>; after the failed listing it
  does not show the same items.
\<close>

theorem list_remote_files_keeps_view_counterexample:
  "listing_error (demo_env (\<lambda>c. False) (\<lambda>p. Inl (Failure ''gone''))) demo_tab
     = Some (Failure ''gone'')
   \<and> remote_list (fst (list_remote_files (demo_env (\<lambda>c. False) (\<lambda>p. Inl (Failure ''gone'')))
                          demo_tab))
       \<noteq> remote_list demo_tab"
  by (simp add: listing_error_def listed_items_def list_remote_files_eq ok_def
        demo_env_def demo_tab_def)

text \<open>
  C1, amended: when a remote listing fails with error \<open>e\<close> (there is no client, the list
  call raises, or the directory test raises on an entry without mode bits),
  \<^verbatim>\<open>list_remote_files\<close> raises nothing and prints \<open>e\<close>; the remote browser, cleared
  before the attempt, shows the parent marker followed by the entries added before the
  failure: none when there is no client or the list call raises, and otherwise the
  entries that stand before the first one without mode bits. The path label, the
  cursors and everything else are as before.
\<close>

theorem list_remote_files_failure:
  "listing_error env s = Some e \<Longrightarrow>
   list_remote_files env s =
     ok (s\<lparr>remote_list := Item ''..'' None # listed_items env s,
            trace := trace s @ [ListRemoteFiles, Print e]\<rparr>)
   \<and> ((sftp s \<longrightarrow> \<not> succeeds (sftp_listdir_attr env (world s) (remote_path s)))
        \<longrightarrow> listed_items env s = [])
   \<and> (sftp s \<and> sftp_listdir_attr env (world s) (remote_path s) = Inr fs
        \<longrightarrow> listed_items env s = shown_entries fs)"
  by (auto simp: list_remote_files_eq listed_items_def succeeds_def split: sum.splits)

theorem list_remote_files_failure_witness:
  "list_remote_files (demo_env (\<lambda>c. False) (\<lambda>p. Inl (Failure ''gone''))) demo_tab =
       ok (demo_tab\<lparr>remote_list := [Item ''..'' None],
                     trace := [ListRemoteFiles, Print (Failure ''gone'')]\<rparr>)
   \<and> list_remote_files
       (demo_env (\<lambda>c. False) (\<lambda>p. Inr [(''x'', Some 33188), (''y'', None), (''z'', Some 16877)]))
       demo_tab =
       ok (demo_tab\<lparr>remote_list := [Item ''..'' None, Item ''x'' (Some ''x'')],
                     trace := [ListRemoteFiles, Print TypeError]\<rparr>)"
proof -
  let ?e1 = "demo_env (\<lambda>c. False) (\<lambda>p. Inl (Failure ''gone''))"
  let ?e2 = "demo_env (\<lambda>c. False) (\<lambda>p. Inr [(''x'', Some 33188), (''y'', None), (''z'', Some 16877)])"
  have h1: "listing_error ?e1 demo_tab = Some (Failure ''gone'')"
    by (simp add: listing_error_def demo_env_def demo_tab_def)
  have h2: "listing_error ?e2 demo_tab = Some TypeError"
    by (simp add: listing_error_def demo_env_def demo_tab_def)
  have l1: "listed_items ?e1 demo_tab = []"
    by (simp add: listed_items_def demo_env_def demo_tab_def)
  have l2: "listed_items ?e2 demo_tab = [Item ''x'' (Some ''x'')]"
    by (simp add: listed_items_def demo_env_def demo_tab_def)
  have t: "trace demo_tab = []" by (simp add: demo_tab_def)
  show ?thesis
    using list_remote_files_failure[OF h1, of "[]"] list_remote_files_failure[OF h2, of "[]"]
    by (simp add: l1 l2 t)
qed

section \<open>Deleting (C2)\<close>

text \<open>
  C2, as stated: for \<^verbatim>\<open>delete_remote\<close> and \<^verbatim>\<open>delete_local\<close>, file deletion is tried
  first, then directory deletion, and both failures are swallowed, so that deleting a
  non-empty directory raises nothing. The second failure is not swallowed: the
  \<^verbatim>\<open>rmdir\<close> call sits in the \<^verbatim>\<open>except\<close> branch, outside any \<^verbatim>\<open>try\<close>. In the example
  the server and the local disk refuse both calls, as they do for a non-empty
  directory, and each method ends with that error raised.
\<close>

theorem delete_swallows_counterexample:
  "snd (delete_remote (demo_env (\<lambda>c. True) (\<lambda>p. Inr [])) (Item ''d/'' (Some ''d'')) demo_tab)
     = Some (Failure ''refused'')
   \<and> snd (delete_local (demo_env (\<lambda>c. True) (\<lambda>p. Inr [])) (Item ''d/'' (Some ''d'')) demo_tab)
     = Some (Failure ''refused'')"
  by (simp add: delete_remote_def delete_local_def Let_def sftp_call_def invoke_def raise_def
        ok_def log_def try_except_def then_do_def demo_env_def demo_tab_def)

text \<open>
  C2, amended: every \<^verbatim>\<open>delete_remote(name)\<close> and \<^verbatim>\<open>delete_local(name)\<close> attempts file
  deletion first; if that succeeds the listing is refreshed. If it fails, its error is
  dropped and directory deletion is attempted on the same path; if that succeeds the
  listing is refreshed. If directory deletion fails too (as for a non-empty directory),
  its error is raised to the caller, no listing refresh is made, and the browser, the
  cursors and the file system are as before. (Without a client, \<^verbatim>\<open>delete_remote\<close>
  raises without any call; on an item without a name both raise before any call.)
\<close>

theorem delete_file_then_directory:
  "delete_remote env it s =
     (case item_data it of
        None \<Rightarrow> raise TypeError s
      | Some n \<Rightarrow>
          if \<not> sftp s then raise AttributeError s
          else
            (case exec env (world s) (SftpRemove (posixpath_join (remote_path s) n)) of
               Inr w \<Rightarrow>
                 list_remote_files env
                   (s\<lparr>trace := trace s @ [Call (SftpRemove (posixpath_join (remote_path s) n))],
                       world := w\<rparr>)
             | Inl e1 \<Rightarrow>
                 (case exec env (world s) (SftpRmdir (posixpath_join (remote_path s) n)) of
                    Inr w \<Rightarrow>
                      list_remote_files env
                        (s\<lparr>trace := trace s @ [Call (SftpRemove (posixpath_join (remote_path s) n)),
                                                Call (SftpRmdir (posixpath_join (remote_path s) n))],
                            world := w\<rparr>)
                  | Inl e2 \<Rightarrow>
                      raise e2
                        (s\<lparr>trace := trace s @ [Call (SftpRemove (posixpath_join (remote_path s) n)),
                                                Call (SftpRmdir (posixpath_join (remote_path s) n))]\<rparr>))))
   \<and> delete_local env it s =
     (case item_data it of
        None \<Rightarrow> raise TypeError s
      | Some n \<Rightarrow>
          (case exec env (world s) (OsRemove (os_path_join env (local_path s) n)) of
             Inr w \<Rightarrow>
               list_local_files env
                 (s\<lparr>trace := trace s @ [Call (OsRemove (os_path_join env (local_path s) n))],
                     world := w\<rparr>)
           | Inl e1 \<Rightarrow>
               (case exec env (world s) (OsRmdir (os_path_join env (local_path s) n)) of
                  Inr w \<Rightarrow>
                    list_local_files env
                      (s\<lparr>trace := trace s @ [Call (OsRemove (os_path_join env (local_path s) n)),
                                              Call (OsRmdir (os_path_join env (local_path s) n))],
                          world := w\<rparr>)
                | Inl e2 \<Rightarrow>
                    raise e2
                      (s\<lparr>trace := trace s @ [Call (OsRemove (os_path_join env (local_path s) n)),
                                              Call (OsRmdir (os_path_join env (local_path s) n))]\<rparr>))))"
  by (simp add: delete_remote_def delete_local_def Let_def sftp_call_def invoke_def raise_def
        ok_def log_def try_except_def then_do_def split: option.splits sum.splits)

theorem delete_file_then_directory_witness:
  "delete_remote (demo_env (\<lambda>c. True) (\<lambda>p. Inr [])) (Item ''d/'' (Some ''d'')) demo_tab =
     raise (Failure ''refused'')
       (demo_tab\<lparr>trace := [Call (SftpRemove ''/a/d''), Call (SftpRmdir ''/a/d'')]\<rparr>)
   \<and> trace (fst (delete_remote (demo_env (\<lambda>c. c = SftpRemove ''/a/d'') (\<lambda>p. Inr []))
                    (Item ''d/'' (Some ''d'')) demo_tab))
       = [Call (SftpRemove ''/a/d''), Call (SftpRmdir ''/a/d''), ListRemoteFiles]
   \<and> trace (fst (delete_remote (demo_env (\<lambda>c. False) (\<lambda>p. Inr []))
                    (Item ''d/'' (Some ''d'')) demo_tab))
       = [Call (SftpRemove ''/a/d''), ListRemoteFiles]
   \<and> delete_local (demo_env (\<lambda>c. True) (\<lambda>p. Inr [])) (Item ''d/'' (Some ''d'')) demo_tab =
     raise (Failure ''refused'')
       (demo_tab\<lparr>trace := [Call (OsRemove ''/home/u/d''), Call (OsRmdir ''/home/u/d'')]\<rparr>)"
proof -
  have p: "posixpath_join ''/a'' ''d'' = ''/a/d''" "posixpath_join ''/home/u'' ''d'' = ''/home/u/d''"
    by (simp_all add: posixpath_join_def startswith_def endswith_def)
  have f: "remote_path demo_tab = ''/a''" "local_path demo_tab = ''/home/u''" "sftp demo_tab"
    "trace demo_tab = []" "world demo_tab = []"
    by (simp_all add: demo_tab_def)
  show ?thesis
    using delete_file_then_directory[of "demo_env (\<lambda>c. True) (\<lambda>p. Inr [])"
        "Item ''d/'' (Some ''d'')" demo_tab]
      delete_file_then_directory[of "demo_env (\<lambda>c. c = SftpRemove ''/a/d'') (\<lambda>p. Inr [])"
        "Item ''d/'' (Some ''d'')" demo_tab]
      delete_file_then_directory[of "demo_env (\<lambda>c. False) (\<lambda>p. Inr [])"
        "Item ''d/'' (Some ''d'')" demo_tab]
    by (simp add: p f demo_env_def list_remote_files_trace listing_error_def)
qed

section \<open>Closing a tab (C3)\<close>

text \<open>
  C3, as stated: on tab close the three close calls (shell reader, file client,
  transport) are attempted independently, a failure of one not preventing the other
  two. \<^verbatim>\<open>close_tab\<close> puts the three calls in one \<^verbatim>\<open>try\<close>: in the example the file
  client's close raises, and the transport, which is set, is never closed.
\<close>

theorem close_tab_independent_counterexample:
  "transport demo_tab
   \<and> exec (demo_env (\<lambda>c. c = SftpClose) (\<lambda>p. Inr []))
        (world_after_channel_close (demo_env (\<lambda>c. c = SftpClose) (\<lambda>p. Inr [])) demo_tab) SftpClose
      = Inl (Failure ''refused'')
   \<and> Call TransportClose
       \<notin> set (trace (fst (close_tab (demo_env (\<lambda>c. c = SftpClose) (\<lambda>p. Inr [])) demo_tab)))"
  by (simp add: close_tab_def terminal_close_def world_after_channel_close_def invoke_def
        try_except_def then_do_def ok_def raise_def log_def Let_def demo_env_def demo_tab_def)

text \<open>
  C3, amended: tab close raises nothing and always removes the tab. The shell reader
  is stopped first and a failure of its channel close is swallowed inside
  \<^verbatim>\<open>SSHTerminal.close\<close>, so the file client's close is attempted whenever the client is
  set. The transport's close is attempted when the transport is set and the file
  client's close did not raise; when the file client's close raises, the transport is
  not closed.
\<close>

theorem close_tab_attempts:
  "snd (close_tab env s) = None \<and>
   trace (fst (close_tab env s)) =
     trace s
     @ (if has_channel s then [Call ChannelClose] else [])
     @ (if sftp s then [Call SftpClose] else [])
     @ (if transport s
           \<and> (sftp s \<longrightarrow> succeeds (exec env (world_after_channel_close env s) SftpClose))
        then [Call TransportClose] else [])
     @ [RemoveTab]"
  by (cases "ssh_terminal s")
     (auto simp: close_tab_def terminal_close_def has_channel_def world_after_channel_close_def
        succeeds_def invoke_def try_except_def then_do_def ok_def raise_def log_def Let_def
        split: sum.splits)

theorem close_tab_attempts_witness:
  "trace (fst (close_tab (demo_env (\<lambda>c. c = ChannelClose) (\<lambda>p. Inr [])) demo_tab))
     = [Call ChannelClose, Call SftpClose, Call TransportClose, RemoveTab]
   \<and> trace (fst (close_tab (demo_env (\<lambda>c. c = SftpClose) (\<lambda>p. Inr [])) demo_tab))
     = [Call ChannelClose, Call SftpClose, RemoveTab]"
  using close_tab_attempts[of "demo_env (\<lambda>c. c = ChannelClose) (\<lambda>p. Inr [])" demo_tab]
    close_tab_attempts[of "demo_env (\<lambda>c. c = SftpClose) (\<lambda>p. Inr [])" demo_tab]
  by (simp add: has_channel_def world_after_channel_close_def succeeds_def demo_env_def
        demo_tab_def)

section \<open>Navigating to the parent (C4)\<close>

text \<open>
  C4: a double click on the parent marker sets \<open>remote_path\<close> to the parent of the
  current path \<open>R\<close>, trailing slashes stripped, and from the root it yields the root
  again. Every \<open>R\<close> is covered: if \<open>R\<close> consists of slashes only (the root), the result
  is \<^verbatim>\<open>/\<close>; if \<open>R\<close> ends in a component \<open>c\<close>, after \<open>j\<close> slashes and before \<open>k\<close> trailing
  slashes, the result is what stands before those \<open>j\<close> slashes (\<open>pre\<close>), or the leading
  slashes themselves when nothing stands before them (the parent of \<^verbatim>\<open>/a\<close> is \<^verbatim>\<open>/\<close>).
  The listing is refreshed once and nothing is raised.
\<close>

theorem remote_double_parent:
  assumes "item_name it = ''..''"
  shows "snd (remote_double env it s) = None
       \<and> count_event ListRemoteFiles (fst (remote_double env it s))
           = count_event ListRemoteFiles s + 1
       \<and> (remote_path s = replicate k CHR ''/''
            \<longrightarrow> remote_path (fst (remote_double env it s)) = ''/'')
       \<and> (remote_path s = pre @ replicate j CHR ''/'' @ c @ replicate k CHR ''/''
            \<and> c \<noteq> [] \<and> CHR ''/'' \<notin> set c \<and> 0 < j \<and> (pre = [] \<or> last pre \<noteq> CHR ''/'')
            \<longrightarrow> remote_path (fst (remote_double env it s))
                  = (if pre = [] then replicate j CHR ''/'' else pre))"
proof -
  have rp: "remote_path (fst (remote_double env it s)) = parent_path (remote_path s)"
    using assms by (simp add: remote_double_remote_path)
  have nr: "snd (remote_double env it s) = None"
    using assms by (simp add: remote_double_def Let_def)
  have cnt: "count_event ListRemoteFiles (fst (remote_double env it s))
           = count_event ListRemoteFiles s + 1"
    using assms
    by (simp add: remote_double_def Let_def count_event_def list_remote_files_trace
        split: option.splits)
  show ?thesis
    using rp nr cnt parent_path_only_slashes[of k] parent_path_decompose[of c j pre k]
    by simp
qed

theorem remote_double_parent_witness:
  "item_name (Item ''..'' None) = ''..''
   \<and> remote_path (fst (remote_double (demo_env (\<lambda>c. False) (\<lambda>p. Inr [])) (Item ''..'' None)
                          (demo_tab\<lparr>remote_path := ''/''\<rparr>))) = ''/''
   \<and> remote_path (fst (remote_double (demo_env (\<lambda>c. False) (\<lambda>p. Inr [])) (Item ''..'' None)
                          (demo_tab\<lparr>remote_path := ''/a/b/''\<rparr>))) = ''/a''"
proof -
  have h: "item_name (Item ''..'' None) = ''..''" by (simp add: item_name_def)
  have r: "''/'' = replicate 1 CHR ''/''" by simp
  have d: "''/a/b/'' = ''/a'' @ replicate 1 CHR ''/'' @ ''b'' @ replicate 1 CHR ''/''" by simp
  show ?thesis
    using h
      remote_double_parent[OF h, of "demo_env (\<lambda>c. False) (\<lambda>p. Inr [])"
        "demo_tab\<lparr>remote_path := ''/''\<rparr>" 1 "[]" 0 "''x''"]
      remote_double_parent[OF h, of "demo_env (\<lambda>c. False) (\<lambda>p. Inr [])"
        "demo_tab\<lparr>remote_path := ''/a/b/''\<rparr>" 1 "''/a''" 1 "''b''"]
    by simp
qed

section \<open>The cd command in the terminal (C5)\<close>

text \<open>
  C5, as stated: for every command text of the form \<^verbatim>\<open>cd <arg>\<close>, the cursor is
  resolved lexically, one listing refresh is made, and the raw text plus a line
  terminator is forwarded to the shell channel. Two inputs show that the last part
  fails. For the text \<^verbatim>\<open>cd sub\<close> followed by a space, what is sent is the stripped text
  \<^verbatim>\<open>cd sub\<close> and a newline, not the raw text and a newline. In a tab without a
  terminal (the connection failed), the cursor moves to \<^verbatim>\<open>/a/sub\<close>, then
  \<^verbatim>\<open>send_term\<close> raises and nothing is sent.
\<close>

theorem send_term_raw_text_counterexample:
  "startswith ''cd sub '' ''cd ''
   \<and> trace (fst (send_term (demo_env (\<lambda>c. False) (\<lambda>p. Inr [])) (demo_tab\<lparr>term_in := ''cd sub ''\<rparr>)))
       = [ListRemoteFiles, Call (ChannelSend (''cd sub'' @ [CHR 10]))]
   \<and> Call (ChannelSend (''cd sub '' @ [CHR 10]))
       \<notin> set (trace (fst (send_term (demo_env (\<lambda>c. False) (\<lambda>p. Inr []))
                              (demo_tab\<lparr>term_in := ''cd sub ''\<rparr>))))
   \<and> send_term (demo_env (\<lambda>c. False) (\<lambda>p. Inr []))
        (demo_tab\<lparr>term_in := ''cd sub'', ssh_terminal := None\<rparr>)
       = raise AttributeError
           (demo_tab\<lparr>term_in := ''cd sub'', ssh_terminal := None, remote_path := ''/a/sub'',
                       remote_list := [Item ''..'' None], remote_label := ''Remote: /a/sub'',
                       trace := [ListRemoteFiles]\<rparr>)"
  by (simp add: send_term_def terminal_send_def list_remote_files_eq listing_error_def
      listed_items_def invoke_def then_do_def ok_def raise_def log_def
      demo_tab_def demo_env_def strip_def py_isspace_def
      startswith_def posixpath_join_def posixpath_normpath_def endswith_def normpath_step_def
      Let_def)

text \<open>
  C5, amended: let \<open>t\<close> be the text of the input line stripped of surrounding white
  space, of the form \<^verbatim>\<open>cd <arg>\<close>, in a tab whose remote path begins with a slash. Then
  the remote cursor becomes the lexical resolution of the stripped \<^verbatim>\<open><arg>\<close> against the
  current remote path, whatever the remote side holds (the property is for every
  environment), and exactly one remote listing refresh is made. After that, if the tab
  has a terminal with a channel, \<open>t\<close> plus a newline is sent on the channel (and an error
  of that call is raised); if the terminal has no channel, nothing is sent; if the tab
  has no terminal, \<^verbatim>\<open>send_term\<close> raises \<^verbatim>\<open>AttributeError\<close> and nothing is sent.
\<close>

theorem send_term_cd:
  assumes "strip (term_in s) = t" "startswith t ''cd ''"
    and "slash_rooted (remote_path s)"
  shows "remote_path (fst (send_term env s))
           = resolve_lexically (remote_path s) (strip (drop 3 t))
       \<and> count_event ListRemoteFiles (fst (send_term env s)) = count_event ListRemoteFiles s + 1
       \<and> trace (fst (send_term env s)) =
           trace s @ ListRemoteFiles
           # (case listing_error env
                     (s\<lparr>remote_path := resolve_lexically (remote_path s) (strip (drop 3 t))\<rparr>) of
                None \<Rightarrow> [] | Some e \<Rightarrow> [Print e])
           @ (if has_channel s then [Call (ChannelSend (t @ [CHR 10]))] else [])
       \<and> snd (send_term env s) =
           (case ssh_terminal s of
              None \<Rightarrow> Some AttributeError
            | Some tm \<Rightarrow>
                if channel tm
                then (case exec env (world s) (ChannelSend (t @ [CHR 10])) of
                        Inl e \<Rightarrow> Some e
                      | Inr w \<Rightarrow> None)
                else None)"
proof -
  let ?p = "resolve_lexically (remote_path s) (strip (drop 3 t))"
  let ?s1 = "s\<lparr>remote_path := ?p\<rparr>"
  have np: "posixpath_normpath (posixpath_join (remote_path s) (strip (drop 3 t))) = ?p"
    using assms(3) by (rule normpath_join_resolve)
  obtain s2 where s2: "list_remote_files env ?s1 = (s2, None)"
    using list_remote_files_no_raise[of env ?s1] by (cases "list_remote_files env ?s1") auto
  have ne: "t \<noteq> []" using assms(2) by (rule startswith_nonempty)
  have fs: "s2 = fst (list_remote_files env ?s1)" by (simp add: s2)
  have term2: "ssh_terminal s2 = ssh_terminal s" unfolding fs by simp
  have w2: "world s2 = world s" unfolding fs by simp
  have rp2: "remote_path s2 = ?p" unfolding fs by simp
  have tr2: "trace s2 = trace s @ ListRemoteFiles
               # (case listing_error env ?s1 of None \<Rightarrow> [] | Some e \<Rightarrow> [Print e])"
    unfolding fs by (simp add: list_remote_files_trace)
  have eq: "send_term env s =
      then_do (terminal_send env t s2) (\<lambda>s3. ok (s3\<lparr>term_in := []\<rparr>))"
    using assms(1,2) ne s2 by (simp add: send_term_def Let_def then_do_def np)
  show ?thesis
  proof (cases "ssh_terminal s")
    case None
    then show ?thesis using term2 rp2 tr2
      by (simp add: eq terminal_send_def then_do_def raise_def has_channel_def count_event_def
          split: option.splits)
  next
    case (Some tm)
    show ?thesis
    proof (cases "channel tm")
      case True
      then show ?thesis using Some term2 rp2 tr2 w2
        by (auto simp: eq terminal_send_def then_do_def invoke_def ok_def raise_def log_def
            has_channel_def count_event_def split: option.splits sum.splits)
    next
      case False
      then show ?thesis using Some term2 rp2 tr2
        by (auto simp: eq terminal_send_def then_do_def ok_def has_channel_def count_event_def
            split: option.splits)
    qed
  qed
qed

theorem send_term_cd_witness:
  "strip (term_in (demo_tab\<lparr>term_in := ''  cd ../b/./c '', remote_path := ''/a/x''\<rparr>))
     = ''cd ../b/./c''
   \<and> startswith ''cd ../b/./c'' ''cd ''
   \<and> slash_rooted ''/a/x''
   \<and> remote_path (fst (send_term (demo_env (\<lambda>c. False) (\<lambda>p. Inl (Failure ''No such file'')))
                      (demo_tab\<lparr>term_in := ''  cd ../b/./c '', remote_path := ''/a/x''\<rparr>)))
       = ''/a/b/c''
   \<and> trace (fst (send_term (demo_env (\<lambda>c. False) (\<lambda>p. Inl (Failure ''No such file'')))
                      (demo_tab\<lparr>term_in := ''  cd ../b/./c '', remote_path := ''/a/x''\<rparr>)))
       = [ListRemoteFiles, Print (Failure ''No such file''),
          Call (ChannelSend (''cd ../b/./c'' @ [CHR 10]))]"
proof -
  let ?s = "demo_tab\<lparr>term_in := ''  cd ../b/./c '', remote_path := ''/a/x''\<rparr>"
  let ?env = "demo_env (\<lambda>c. False) (\<lambda>p. Inl (Failure ''No such file''))"
  have h1: "strip (term_in ?s) = ''cd ../b/./c''"
    by (simp add: strip_def py_isspace_def)
  have h2: "startswith ''cd ../b/./c'' ''cd ''" by (simp add: startswith_def)
  have h3: "slash_rooted (remote_path ?s)" by (simp add: slash_rooted_def startswith_def)
  have a: "strip ''../b/./c'' = ''../b/./c''"
    by (simp add: strip_def py_isspace_def)
  have r: "resolve_lexically ''/a/x'' ''../b/./c'' = ''/a/b/c''"
    by (simp add: resolve_lexically_def path_root_def startswith_def lex_step_def)
  have l: "listing_error ?env x = Some (Failure ''No such file'')" if "sftp x" for x
    using that by (simp add: listing_error_def demo_env_def)
  have c: "has_channel ?s" "trace ?s = []" "sftp demo_tab"
    by (simp_all add: has_channel_def demo_tab_def)
  show ?thesis
    using h1 h2 h3 send_term_cd[OF h1 h2 h3, of ?env]
    by (simp add: a r l c)
qed

section \<open>Uploading (C6)\<close>

text \<open>
  C6: \<^verbatim>\<open>upload_file\<close> on the entry \<open>n\<close> calls \<^verbatim>\<open>put\<close> from the path of \<open>n\<close> under the
  local cursor to the path of \<open>n\<close> under the remote cursor. It raises nothing and leaves
  both cursors as they were. When the call succeeds, the world is the one the call
  produced, exactly one remote listing refresh is made and no dialog is shown; when it
  fails (or no client is set), the error is shown in the dialog "Upload Error", no
  refresh is made and nothing else changes. With local cursor \<^verbatim>\<open>/home/u\<close>, remote
  cursor \<^verbatim>\<open>/srv\<close> and a host that joins paths with a slash, \<^verbatim>\<open>file.txt\<close> goes from
  \<^verbatim>\<open>/home/u/file.txt\<close> to \<^verbatim>\<open>/srv/file.txt\<close>.
\<close>

theorem upload_file_spec:
  assumes "item_data it = Some n"
    and "src = os_path_join env (local_path s) n"
    and "dst = posixpath_join (remote_path s) n"
    and "s' = fst (upload_file env it s)"
  shows "snd (upload_file env it s) = None
       \<and> remote_path s' = remote_path s \<and> local_path s' = local_path s
       \<and> (case upload_error env s src dst of
            None \<Rightarrow>
              Call (SftpPut src dst) \<in> set (trace s')
              \<and> exec env (world s) (SftpPut src dst) = Inr (world s')
              \<and> count_event ListRemoteFiles s' = count_event ListRemoteFiles s + 1
              \<and> (\<forall>t e. MsgBox t e \<notin> set (drop (length (trace s)) (trace s')))
          | Some e \<Rightarrow>
              s' = s\<lparr>trace := trace s @ (if sftp s then [Call (SftpPut src dst)] else [])
                                   @ [MsgBox ''Upload Error'' e]\<rparr>
              \<and> count_event ListRemoteFiles s' = count_event ListRemoteFiles s)"
proof (cases "upload_error env s src dst")
  case None
  then obtain w where sf: "sftp s" and ex: "exec env (world s) (SftpPut src dst) = Inr w"
    by (auto simp: upload_error_def split: if_splits sum.splits)
  let ?s1 = "s\<lparr>trace := trace s @ [Call (SftpPut src dst)], world := w\<rparr>"
  obtain s2 where s2: "list_remote_files env ?s1 = (s2, None)"
    using list_remote_files_no_raise[of env ?s1] by (cases "list_remote_files env ?s1") auto
  have fs: "s2 = fst (list_remote_files env ?s1)" by (simp add: s2)
  have up: "upload_file env it s = (s2, None)"
    using assms(1,2,3) sf ex s2
    by (simp add: upload_file_def Let_def sftp_call_def invoke_def ok_def log_def
        then_do_def try_except_def)
  have tr: "trace s2 = trace s @ [Call (SftpPut src dst), ListRemoteFiles]
                @ (case listing_error env ?s1 of None \<Rightarrow> [] | Some e \<Rightarrow> [Print e])"
    unfolding fs by (simp add: list_remote_files_trace)
  have w2: "world s2 = w" unfolding fs by simp
  have p2: "remote_path s2 = remote_path s" "local_path s2 = local_path s"
    unfolding fs by simp_all
  show ?thesis using None up tr w2 p2 ex assms(4)
    by (auto simp: count_event_def split: option.splits)
next
  case (Some e)
  then have "upload_file env it s =
      ok (s\<lparr>trace := trace s @ (if sftp s then [Call (SftpPut src dst)] else []) @ [MsgBox ''Upload Error'' e]\<rparr>)"
    using assms(1,2,3)
    by (auto simp: upload_error_def upload_file_def Let_def sftp_call_def invoke_def ok_def log_def
        raise_def then_do_def try_except_def split: if_splits sum.splits)
  then show ?thesis using Some assms(4)
    by (auto simp: ok_def count_event_def)
qed

theorem upload_file_spec_witness:
  "item_data (Item ''file.txt'' (Some ''file.txt'')) = Some ''file.txt''
   \<and> os_path_join (demo_env (\<lambda>c. False) (\<lambda>p. Inr [])) ''/home/u'' ''file.txt'' = ''/home/u/file.txt''
   \<and> posixpath_join ''/srv'' ''file.txt'' = ''/srv/file.txt''
   \<and> Call (SftpPut ''/home/u/file.txt'' ''/srv/file.txt'')
       \<in> set (trace (fst (upload_file (demo_env (\<lambda>c. False) (\<lambda>p. Inr []))
                             (Item ''file.txt'' (Some ''file.txt''))
                             (demo_tab\<lparr>remote_path := ''/srv''\<rparr>))))
   \<and> count_event ListRemoteFiles
        (fst (upload_file (demo_env (\<lambda>c. False) (\<lambda>p. Inr []))
                (Item ''file.txt'' (Some ''file.txt'')) (demo_tab\<lparr>remote_path := ''/srv''\<rparr>))) = 1
   \<and> fst (upload_file (demo_env (\<lambda>c. True) (\<lambda>p. Inr []))
            (Item ''file.txt'' (Some ''file.txt'')) (demo_tab\<lparr>remote_path := ''/srv''\<rparr>))
       = demo_tab\<lparr>remote_path := ''/srv'',
                   trace := [Call (SftpPut ''/home/u/file.txt'' ''/srv/file.txt''),
                             MsgBox ''Upload Error'' (Failure ''refused'')]\<rparr>"
proof -
  have h: "item_data (Item ''file.txt'' (Some ''file.txt'')) = Some ''file.txt''" by simp
  have j1: "os_path_join (demo_env r (\<lambda>p. Inr [])) ''/home/u'' ''file.txt'' = ''/home/u/file.txt''" for r
    by (simp add: demo_env_def posixpath_join_def startswith_def endswith_def)
  have j2: "posixpath_join ''/srv'' ''file.txt'' = ''/srv/file.txt''"
    by (simp add: posixpath_join_def startswith_def endswith_def)
  have u1: "upload_error (demo_env (\<lambda>c. False) (\<lambda>p. Inr [])) (demo_tab\<lparr>remote_path := ''/srv''\<rparr>)
              ''/home/u/file.txt'' ''/srv/file.txt'' = None"
    by (simp add: upload_error_def demo_env_def demo_tab_def)
  have u2: "upload_error (demo_env (\<lambda>c. True) (\<lambda>p. Inr [])) (demo_tab\<lparr>remote_path := ''/srv''\<rparr>)
              ''/home/u/file.txt'' ''/srv/file.txt'' = Some (Failure ''refused'')"
    by (simp add: upload_error_def demo_env_def demo_tab_def)
  have lp: "local_path (demo_tab\<lparr>remote_path := ''/srv''\<rparr>) = ''/home/u''"
      "remote_path (demo_tab\<lparr>remote_path := ''/srv''\<rparr>) = ''/srv''"
      "sftp (demo_tab\<lparr>remote_path := ''/srv''\<rparr>)"
      "trace (demo_tab\<lparr>remote_path := ''/srv''\<rparr>) = []"
    by (simp_all add: demo_tab_def)
  note a = upload_file_spec[OF h refl refl refl,
      of "demo_env (\<lambda>c. False) (\<lambda>p. Inr [])" "demo_tab\<lparr>remote_path := ''/srv''\<rparr>"]
  note b = upload_file_spec[OF h refl refl refl,
      of "demo_env (\<lambda>c. True) (\<lambda>p. Inr [])" "demo_tab\<lparr>remote_path := ''/srv''\<rparr>"]
  have c: "count_event ListRemoteFiles (demo_tab\<lparr>remote_path := ''/srv''\<rparr>) = 0"
    by (simp add: count_event_def demo_tab_def)
  show ?thesis
    using a b by (simp add: lp j1 j2 u1 u2 c)
qed

section \<open>The key file and the authentication call (C7)\<close>

text \<open>
  C7: \<^verbatim>\<open>connect_all\<close> authenticates with the profile's user name and password only.
  Whatever value \<open>v\<close> the profile \<open>c\<close> holds under \<^verbatim>\<open>keyfile\<close>, the connection runs the
  same way: the same calls with the same arguments, the same dialogs, the same outcome.
  Every authentication call among the events of \<^verbatim>\<open>connect_all\<close> has the arguments
  \<^verbatim>\<open>cfg["username"]\<close> and \<^verbatim>\<open>cfg.get("password")\<close>. The dialog does store the key file:
  the profile \<^verbatim>\<open>get_data\<close> returns holds the stripped text of the field (or \<^verbatim>\<open>None\<close>)
  under \<^verbatim>\<open>keyfile\<close>, next to the user name and the password it returns.
\<close>

theorem connect_ignores_keyfile:
  "connect_all env (s\<lparr>cfg := dict_set ''keyfile'' v c\<rparr>)
     = with_cfg (dict_set ''keyfile'' v c) (connect_all env (s\<lparr>cfg := c\<rparr>))
   \<and> (\<exists>evs. trace (fst (connect_all env (s\<lparr>cfg := c\<rparr>))) = trace s @ evs
          \<and> list_all (auth_with (dict_item c ''username'') (dict_get c ''password'' JNull)) evs)
   \<and> (get_data env d = Inr c \<longrightarrow>
        dict_item c ''keyfile''
          = Inr (if strip (dlg_keyfile d) \<noteq> [] then JStr (strip (dlg_keyfile d)) else JNull)
        \<and> dict_item c ''username'' = Inr (JStr (strip (dlg_username d)))
        \<and> dict_get c ''password'' JNull = JStr (dlg_password d))"
proof -
  have a: "connect_all env (s\<lparr>cfg := dict_set ''keyfile'' v c\<rparr>)
     = with_cfg (dict_set ''keyfile'' v c) (connect_all env (s\<lparr>cfg := c\<rparr>))"
    by (rule connect_all_cfg[OF same_credentials_keyfile])
  have b: "\<exists>evs. trace (fst (connect_all env (s\<lparr>cfg := c\<rparr>))) = trace s @ evs
          \<and> list_all (auth_with (dict_item c ''username'') (dict_get c ''password'' JNull)) evs"
    using connect_all_emits[of env "s\<lparr>cfg := c\<rparr>"] by simp
  have c: "get_data env d = Inr c \<longrightarrow>
        dict_item c ''keyfile''
          = Inr (if strip (dlg_keyfile d) \<noteq> [] then JStr (strip (dlg_keyfile d)) else JNull)
        \<and> dict_item c ''username'' = Inr (JStr (strip (dlg_username d)))
        \<and> dict_get c ''password'' JNull = JStr (dlg_password d)"
    by (auto simp: get_data_def dict_item_def dict_get_def split: sum.splits if_splits)
  show ?thesis using a b c by blast
qed

theorem connect_ignores_keyfile_witness:
  "get_data (demo_env (\<lambda>c. False) (\<lambda>p. Inr [])) demo_dialog
     = Inr [(''server'', JStr ''h''), (''port'', JInt 22), (''username'', JStr ''u''),
            (''password'', JStr ''p''), (''keyfile'', JStr ''C:/keys/id_rsa''),
            (''remote_path'', JStr ''/''), (''local_path'', JStr [])]
   \<and> dict_item [(''server'', JStr ''h''), (''port'', JInt 22), (''username'', JStr ''u''),
            (''password'', JStr ''p''), (''keyfile'', JStr ''C:/keys/id_rsa''),
            (''remote_path'', JStr ''/''), (''local_path'', JStr [])] ''keyfile''
       = Inr (JStr ''C:/keys/id_rsa'')"
proof -
  have g: "get_data (demo_env (\<lambda>c. False) (\<lambda>p. Inr [])) demo_dialog
     = Inr [(''server'', JStr ''h''), (''port'', JInt 22), (''username'', JStr ''u''),
            (''password'', JStr ''p''), (''keyfile'', JStr ''C:/keys/id_rsa''),
            (''remote_path'', JStr ''/''), (''local_path'', JStr [])]"
    by (simp add: get_data_def demo_env_def demo_dialog_def strip_def py_isspace_def)
  have k: "strip (dlg_keyfile demo_dialog) = ''C:/keys/id_rsa''"
    by (simp add: demo_dialog_def strip_def py_isspace_def)
  show ?thesis
    using g k connect_ignores_keyfile[where env = "demo_env (\<lambda>c. False) (\<lambda>p. Inr [])"
        and s = demo_tab and v = JNull and d = demo_dialog
        and c = "[(''server'', JStr ''h''), (''port'', JInt 22), (''username'', JStr ''u''),
            (''password'', JStr ''p''), (''keyfile'', JStr ''C:/keys/id_rsa''),
            (''remote_path'', JStr ''/''), (''local_path'', JStr [])]"]
    by simp
qed

section \<open>Loading the persisted files (C8, C10)\<close>

text \<open>
  C8: loading the profile registry and loading the theme never raise, whatever the
  file holds. When the file is missing or cannot be opened or decoded, the registry
  is the empty list and the theme is the default theme.
\<close>

theorem loaders_never_raise:
  "(\<exists>v. load_saved_configs f = Inr v) \<and> (\<exists>t. theme_load f = Inr t)
   \<and> ((f = Missing \<or> f = Corrupt e) \<longrightarrow>
        load_saved_configs f = Inr [] \<and> theme_load f = Inr default_theme)"
  by (cases f)
     (auto simp: load_saved_configs_def theme_load_def path_exists_def json_load_def catch_def
        split: sum.splits option.splits json.splits)

theorem loaders_never_raise_witness:
  "load_saved_configs Missing = Inr [] \<and> theme_load Missing = Inr default_theme
   \<and> load_saved_configs (Corrupt (Failure ''JSONDecodeError'')) = Inr []
   \<and> theme_load (Corrupt (Failure ''JSONDecodeError'')) = Inr default_theme"
  using loaders_never_raise[of Missing "Failure ''JSONDecodeError''"]
    loaders_never_raise[of "Corrupt (Failure ''JSONDecodeError'')" "Failure ''JSONDecodeError''"]
  by simp

text \<open>
  C10: when the profile file holds a JSON value that is not a list (a single profile
  object, for one), the registry is the one-element list holding that value.
\<close>

theorem load_saved_configs_wraps:
  "(\<forall>xs. v \<noteq> JList xs) \<Longrightarrow> load_saved_configs (Content v) = Inr [v]"
  by (cases v)
     (auto simp: load_saved_configs_def path_exists_def json_load_def catch_def)

theorem load_saved_configs_wraps_witness:
  "(\<forall>xs. JObj [(''server'', JStr ''h''), (''username'', JStr ''u'')] \<noteq> JList xs)
   \<and> load_saved_configs (Content (JObj [(''server'', JStr ''h''), (''username'', JStr ''u'')]))
       = Inr [JObj [(''server'', JStr ''h''), (''username'', JStr ''u'')]]"
proof -
  have h: "\<forall>xs. JObj [(''server'', JStr ''h''), (''username'', JStr ''u'')] \<noteq> JList xs" by simp
  show ?thesis using h load_saved_configs_wraps[OF h] by simp
qed

section \<open>The remote cursor stays absolute (C9)\<close>

text \<open>
  C9: starting from a remote path that begins with a slash, after every action of
  any sequence of double clicks in the remote browser, terminal commands, refreshes,
  deletes and uploads (that is, after every prefix of the sequence), the remote path
  begins with a slash: going to the parent, descending into a directory and the
  lexical resolution of \<^verbatim>\<open>cd\<close> all keep it absolute.
\<close>

theorem remote_path_stays_rooted:
  "slash_rooted (remote_path s) \<Longrightarrow> slash_rooted (remote_path (run env (take n acts) s))"
  by (rule run_rooted)

theorem remote_path_stays_rooted_witness:
  "slash_rooted (remote_path demo_tab)
   \<and> slash_rooted (remote_path (run (demo_env (\<lambda>c. False) (\<lambda>p. Inr []))
        (take 2 [SendTerm ''cd ../../x'', RemoteDouble (Item ''..'' None), SendTerm ''cd y''])
        demo_tab))"
proof -
  have h: "slash_rooted (remote_path demo_tab)"
    by (simp add: demo_tab_def slash_rooted_def startswith_def)
  show ?thesis by (rule conjI[OF h remote_path_stays_rooted[OF h]])
qed

end
